theory Spec2Isabelle
  imports Main "HOL-Library.Sublist"
begin

section \<open>JavaScript strings and the built-in functions the program calls\<close>

text \<open>
  A JavaScript string is modelled as a HOL \<open>string\<close>. A character is one byte: ASCII text
  is represented character by character, text beyond ASCII by its UTF-8 bytes. The built-in
  functions below follow ECMAScript in this view: where ECMAScript counts UTF-16 code
  units or looks at a character beyond ASCII (the white space of \<open>trim\<close> and \<open>parseInt\<close>,
  the line terminators of \<open>.\<close>, the replacement of non-word characters), the model
  reads the UTF-8 sequence of that character.
\<close>

definition startsWith :: "string \<Rightarrow> string \<Rightarrow> bool" where
  \<comment> \<open>\<open>s.startsWith(p)\<close>\<close>
  "startsWith s p = prefix p s"

definition includesChar :: "string \<Rightarrow> char \<Rightarrow> bool" where
  \<comment> \<open>\<open>s.includes(c)\<close> for a one-character search string\<close>
  "includesChar s c = (c \<in> set s)"

fun splitOn :: "char \<Rightarrow> string \<Rightarrow> string list" where
  \<comment> \<open>\<open>s.split(c)\<close> for a one-character separator: never the empty list,
      \<open>''''.split(c)\<close> is \<open>['''']\<close>\<close>
  "splitOn c [] = [[]]"
| "splitOn c (x # xs) =
     (if x = c then [] # splitOn c xs
      else (case splitOn c xs of
              [] \<Rightarrow> [[x]]
            | p # ps \<Rightarrow> (x # p) # ps))"

text \<open>
  The white space and the line terminators of ECMAScript, each as its UTF-8 sequence: TAB,
  LF, VT, FF, CR, SP, U+00A0, U+1680, U+2000 to U+200A, U+2028, U+2029, U+202F, U+205F,
  U+3000 and U+FEFF. \<open>trim\<close> removes them from both ends, \<open>parseInt\<close> skips them at the
  start.
\<close>

definition whiteSpace :: "string list" where
  "whiteSpace =
     [[CHR 0x09], [CHR 0x0A], [CHR 0x0B], [CHR 0x0C], [CHR 0x0D], [CHR 0x20],
      [CHR 0xC2, CHR 0xA0],
      [CHR 0xE1, CHR 0x9A, CHR 0x80],
      [CHR 0xE2, CHR 0x80, CHR 0x80], [CHR 0xE2, CHR 0x80, CHR 0x81],
      [CHR 0xE2, CHR 0x80, CHR 0x82], [CHR 0xE2, CHR 0x80, CHR 0x83],
      [CHR 0xE2, CHR 0x80, CHR 0x84], [CHR 0xE2, CHR 0x80, CHR 0x85],
      [CHR 0xE2, CHR 0x80, CHR 0x86], [CHR 0xE2, CHR 0x80, CHR 0x87],
      [CHR 0xE2, CHR 0x80, CHR 0x88], [CHR 0xE2, CHR 0x80, CHR 0x89],
      [CHR 0xE2, CHR 0x80, CHR 0x8A],
      [CHR 0xE2, CHR 0x80, CHR 0xA8], [CHR 0xE2, CHR 0x80, CHR 0xA9],
      [CHR 0xE2, CHR 0x80, CHR 0xAF],
      [CHR 0xE2, CHR 0x81, CHR 0x9F],
      [CHR 0xE3, CHR 0x80, CHR 0x80],
      [CHR 0xEF, CHR 0xBB, CHR 0xBF]]"

lemma whiteSpace_nonempty: "w \<in> set whiteSpace \<Longrightarrow> w \<noteq> []"
  by (auto simp: whiteSpace_def)

function trimStart :: "string \<Rightarrow> string" where
  "trimStart s =
     (case find (\<lambda>w. prefix w s) whiteSpace of
        None \<Rightarrow> s
      | Some w \<Rightarrow> trimStart (drop (length w) s))"
  by pat_completeness auto
termination
proof (relation "measure length")
  fix s w
  assume "find (\<lambda>w. prefix w s) whiteSpace = Some w"
  then have "w \<in> set whiteSpace" "prefix w s"
    by (auto simp: find_Some_iff)
  then have "w \<noteq> []" "length w \<le> length s"
    by (auto simp: whiteSpace_nonempty prefix_length_le)
  then show "(drop (length w) s, s) \<in> measure length"
    by (cases w) auto
qed simp

declare trimStart.simps [simp del]

function trimEnd :: "string \<Rightarrow> string" where
  "trimEnd s =
     (case find (\<lambda>w. suffix w s) whiteSpace of
        None \<Rightarrow> s
      | Some w \<Rightarrow> trimEnd (take (length s - length w) s))"
  by pat_completeness auto
termination
proof (relation "measure length")
  fix s w
  assume "find (\<lambda>w. suffix w s) whiteSpace = Some w"
  then have "w \<in> set whiteSpace" "suffix w s"
    by (auto simp: find_Some_iff)
  then have "w \<noteq> []" "length w \<le> length s"
    by (auto simp: whiteSpace_nonempty suffix_length_le)
  then show "(take (length s - length w) s, s) \<in> measure length"
    by (cases w) auto
qed simp

declare trimEnd.simps [simp del]

definition trim :: "string \<Rightarrow> string" where
  \<comment> \<open>\<open>s.trim()\<close>\<close>
  "trim s = trimEnd (trimStart s)"

definition charBetween :: "char \<Rightarrow> char \<Rightarrow> char \<Rightarrow> bool" where
  \<comment> \<open>a character class \<open>[lo-hi]\<close>\<close>
  "charBetween lo hi c = ((of_char lo :: nat) \<le> of_char c \<and> (of_char c :: nat) \<le> of_char hi)"

definition isDigit :: "char \<Rightarrow> bool" where
  \<comment> \<open>the class \<open>\d\<close>\<close>
  "isDigit c = charBetween CHR ''0'' CHR ''9'' c"

definition digitValue :: "char \<Rightarrow> nat option" where
  \<comment> \<open>the value of a digit in radix up to 16, as \<open>parseInt\<close> reads it\<close>
  "digitValue c =
     (if charBetween CHR ''0'' CHR ''9'' c then Some (of_char c - 48)
      else if charBetween CHR ''a'' CHR ''f'' c then Some (of_char c - 87)
      else if charBetween CHR ''A'' CHR ''F'' c then Some (of_char c - 55)
      else None)"

definition inRadix :: "nat \<Rightarrow> char \<Rightarrow> bool" where
  "inRadix r c = (case digitValue c of None \<Rightarrow> False | Some v \<Rightarrow> v < r)"

definition digitsValue :: "nat \<Rightarrow> string \<Rightarrow> int" where
  "digitsValue r ds =
     foldl (\<lambda>a c. a * int r + (case digitValue c of None \<Rightarrow> 0 | Some v \<Rightarrow> int v)) 0 ds"

text \<open>
  The numbers that the program computes from \<open>parseInt\<close> are \<open>NaN\<close>, the infinities and the
  doubles with an integer value. \<open>roundDouble\<close> is the conversion of an integer to the
  nearest double, ties to even: exact up to \<open>2^53\<close>, to 53 significant bits above, and
  infinite from \<open>2^1024 - 2^970\<close> on. The sum and the product of two such numbers are
  the rounded exact results, as in IEEE 754.
\<close>

datatype number = NaN | Finite int | Infinite bool

function bitLength :: "int \<Rightarrow> nat" where
  "bitLength n = (if n \<le> 0 then 0 else Suc (bitLength (n div 2)))"
  by pat_completeness auto
termination
  by (relation "measure nat") auto

declare bitLength.simps [simp del]

definition roundDouble :: "int \<Rightarrow> number" where
  "roundDouble n =
     (if \<bar>n\<bar> \<le> 2 ^ 53 then Finite n
      else
        (let shift = bitLength \<bar>n\<bar> - 53;
             q = \<bar>n\<bar> div 2 ^ shift;
             r = \<bar>n\<bar> mod 2 ^ shift;
             half = 2 ^ (shift - 1);
             q' = (if r > half \<or> (r = half \<and> odd q) then q + 1 else q);
             m = q' * 2 ^ shift
         in if m \<ge> 2 ^ 1024 then Infinite (n > 0)
            else Finite (if n < 0 then - m else m)))"

fun numberAdd :: "number \<Rightarrow> number \<Rightarrow> number" where
  \<comment> \<open>\<open>x + y\<close> on numbers; \<open>Infinite True\<close> is \<open>+Infinity\<close>\<close>
  "numberAdd (Finite a) (Finite b) = roundDouble (a + b)"
| "numberAdd (Infinite s) (Finite b) = Infinite s"
| "numberAdd (Finite a) (Infinite t) = Infinite t"
| "numberAdd (Infinite s) (Infinite t) = (if s = t then Infinite s else NaN)"
| "numberAdd x y = NaN"

fun numberMul :: "number \<Rightarrow> number \<Rightarrow> number" where
  \<comment> \<open>\<open>x * y\<close> on numbers\<close>
  "numberMul (Finite a) (Finite b) = roundDouble (a * b)"
| "numberMul (Infinite s) (Finite b) = (if b = 0 then NaN else Infinite (s = (b > 0)))"
| "numberMul (Finite a) (Infinite t) = (if a = 0 then NaN else Infinite (t = (a > 0)))"
| "numberMul (Infinite s) (Infinite t) = Infinite (s = t)"
| "numberMul x y = NaN"

fun greaterThan :: "number \<Rightarrow> number \<Rightarrow> bool" where
  \<comment> \<open>\<open>x > y\<close> on numbers: false when one of them is \<open>NaN\<close>\<close>
  "greaterThan (Finite a) (Finite b) = (a > b)"
| "greaterThan (Infinite s) (Finite b) = s"
| "greaterThan (Finite a) (Infinite t) = (\<not> t)"
| "greaterThan (Infinite s) (Infinite t) = (s \<and> \<not> t)"
| "greaterThan x y = False"

definition parseInt :: "string \<Rightarrow> number" where
  \<comment> \<open>\<open>parseInt(s)\<close> with no radix argument. Leading white space is skipped, a sign is
      read, a prefix \<open>0x\<close> or \<open>0X\<close> selects radix 16, and the longest run of digits is
      converted and rounded to a double; without a digit the result is \<open>NaN\<close>.\<close>
  "parseInt s =
     (let s1 = trimStart s;
          neg = (s1 \<noteq> [] \<and> hd s1 = CHR ''-'');
          s2 = (if s1 \<noteq> [] \<and> (hd s1 = CHR ''-'' \<or> hd s1 = CHR ''+'') then tl s1 else s1);
          hex = (startsWith s2 ''0x'' \<or> startsWith s2 ''0X'');
          r = (if hex then 16 else 10);
          s3 = (if hex then drop 2 s2 else s2);
          ds = takeWhile (inRadix r) s3
      in if ds = [] then NaN
         else roundDouble (if neg then - digitsValue r ds else digitsValue r ds))"

definition orElse :: "number \<Rightarrow> number \<Rightarrow> number" where
  \<comment> \<open>\<open>x || d\<close> for a number \<open>x\<close>: \<open>NaN\<close> and zero are falsy\<close>
  "orElse x d = (if x = NaN \<or> x = Finite 0 then d else x)"

subsection \<open>Percent-decoding\<close>

text \<open>
  \<open>decodeURIComponent\<close> follows the \<open>Decode\<close> operation of ECMAScript: a character other
  than \<open>%\<close> is copied; \<open>%\<close> must be followed by two hexadecimal digits; an octet below
  \<open>0x80\<close> is the character itself; a larger octet starts a UTF-8 sequence of two to four
  escaped octets, which must be well formed. Every violation throws \<open>URIError\<close>, which is
  the result \<open>None\<close>. In the byte view of strings the decoded code point is its UTF-8
  octets.
\<close>

fun readEscapes :: "nat \<Rightarrow> string \<Rightarrow> nat list option" where
  "readEscapes 0 s = Some []"
| "readEscapes (Suc k) (p # h # l # rest) =
     (if p = CHR ''%'' then
        (case (digitValue h, digitValue l) of
           (Some a, Some b) \<Rightarrow> map_option ((#) (16 * a + b)) (readEscapes k rest)
         | _ \<Rightarrow> None)
      else None)"
| "readEscapes (Suc k) s = None"

definition sequenceLength :: "nat \<Rightarrow> nat" where
  "sequenceLength b =
     (if b < 0x80 then 1
      else if 0xC0 \<le> b \<and> b \<le> 0xDF then 2
      else if 0xE0 \<le> b \<and> b \<le> 0xEF then 3
      else if 0xF0 \<le> b \<and> b \<le> 0xF7 then 4
      else 0)"

definition continuation :: "nat \<Rightarrow> bool" where
  "continuation b = (0x80 \<le> b \<and> b \<le> 0xBF)"

fun validUtf8 :: "nat list \<Rightarrow> bool" where
  "validUtf8 [b0] = (b0 < 0x80)"
| "validUtf8 [b0, b1] = (0xC2 \<le> b0 \<and> b0 \<le> 0xDF \<and> continuation b1)"
| "validUtf8 [b0, b1, b2] =
     (((b0 = 0xE0 \<and> 0xA0 \<le> b1 \<and> b1 \<le> 0xBF)
       \<or> (0xE1 \<le> b0 \<and> b0 \<le> 0xEC \<and> continuation b1)
       \<or> (b0 = 0xED \<and> 0x80 \<le> b1 \<and> b1 \<le> 0x9F)
       \<or> (0xEE \<le> b0 \<and> b0 \<le> 0xEF \<and> continuation b1))
      \<and> continuation b2)"
| "validUtf8 [b0, b1, b2, b3] =
     (((b0 = 0xF0 \<and> 0x90 \<le> b1 \<and> b1 \<le> 0xBF)
       \<or> (0xF1 \<le> b0 \<and> b0 \<le> 0xF3 \<and> continuation b1)
       \<or> (b0 = 0xF4 \<and> 0x80 \<le> b1 \<and> b1 \<le> 0x8F))
      \<and> continuation b2 \<and> continuation b3)"
| "validUtf8 bs = False"

fun decodeURIComponent :: "string \<Rightarrow> string option" where
  "decodeURIComponent [] = Some []"
| "decodeURIComponent (c # cs) =
     (if c \<noteq> CHR ''%'' then map_option ((#) c) (decodeURIComponent cs)
      else
        (case readEscapes 1 (c # cs) of
           None \<Rightarrow> None
         | Some first \<Rightarrow>
             (let n = sequenceLength (hd first) in
              case readEscapes n (c # cs) of
                None \<Rightarrow> None
              | Some octets \<Rightarrow>
                  if validUtf8 octets
                  then map_option ((@) (map char_of octets)) (decodeURIComponent (drop (3 * n - 1) cs))
                  else None)))"

lemma readEscapes_length: "readEscapes k s = Some bs \<Longrightarrow> length bs = k \<and> 3 * k \<le> length s"
  by (induction k s arbitrary: bs rule: readEscapes.induct) (auto split: if_splits option.splits)

lemma validUtf8_nonempty: "validUtf8 bs \<Longrightarrow> bs \<noteq> []"
  by auto

lemma decode_length:
  "decodeURIComponent s = Some t \<Longrightarrow> length t \<le> length s \<and> (CHR ''%'' \<in> set s \<longrightarrow> length t < length s)"
proof (induction s arbitrary: t rule: decodeURIComponent.induct)
  case 1
  then show ?case by simp
next
  case (2 c cs)
  show ?case
  proof (cases "c = CHR ''%''")
    case False
    with 2 show ?thesis by (auto)
  next
    case True
    from 2(3) True obtain first where f: "readEscapes 1 (c # cs) = Some first"
      by (auto split: option.splits)
    define n where "n = sequenceLength (hd first)"
    from 2(3) True f obtain octets where o: "readEscapes n (c # cs) = Some octets"
      by (auto simp: n_def Let_def split: option.splits)
    from 2(3) True f o have v: "validUtf8 octets"
      by (auto simp: n_def Let_def split: option.splits if_splits)
    from 2(3) True f o v obtain r where r: "decodeURIComponent (drop (3 * n - 1) cs) = Some r"
      and t: "t = map char_of octets @ r"
      by (auto simp: n_def Let_def split: option.splits if_splits)
    have ih: "length r \<le> length (drop (3 * n - 1) cs)"
      using 2(2) [of first n octets r] True f n_def o v r by simp
    have len: "length octets = n" "3 * n \<le> length (c # cs)"
      using readEscapes_length [OF o] by auto
    have pos: "0 < n" using v len by auto
    have "length t = n + length r" using t len by simp
    moreover have "length r \<le> Suc (length cs) - 3 * n" using ih by simp
    ultimately have "length t < length (c # cs)" using len(2) pos by simp
    then show ?thesis by simp
  qed
qed

section \<open>The URL normalizer at the head of \<open>parseM3U\<close>\<close>

text \<open>
  The loop \<open>while (decodedUrls.includes('%')) { ... }\<close>. \<open>None\<close> means that
  \<open>decodeURIComponent\<close> threw, which leaves the \<open>try\<close> block. The loop ends because
  a successful decoding of a string that contains \<open>%\<close> is shorter than the string.
\<close>

function decodeLoop :: "string \<Rightarrow> string option" where
  "decodeLoop decodedUrls =
     (if includesChar decodedUrls CHR ''%'' then
        (case decodeURIComponent decodedUrls of
           None \<Rightarrow> None
         | Some newDecoded \<Rightarrow>
             if newDecoded = decodedUrls then Some decodedUrls else decodeLoop newDecoded)
      else Some decodedUrls)"
  by pat_completeness auto
termination
  by (relation "measure length") (auto simp: includesChar_def dest: decode_length)

declare decodeLoop.simps [simp del]

text \<open>
  \<open>s.replace(/pat/g, rep)\<close> for a pattern that is a fixed text: the occurrences are found
  from left to right and do not overlap. \<open>stripParams\<close> is the replacement of
  \<open>/&(epg|language|update_interval|epg_enabled)=[^,]*/g\<close> by the empty string: at an
  occurrence of \<open>&\<close>, a parameter name and \<open>=\<close>, everything up to the next comma goes.
\<close>

fun replaceAll :: "string \<Rightarrow> string \<Rightarrow> string \<Rightarrow> string" where
  "replaceAll pat rep [] = []"
| "replaceAll pat rep (c # cs) =
     (if pat \<noteq> [] \<and> prefix pat (c # cs)
      then rep @ replaceAll pat rep (drop (length pat - 1) cs)
      else c # replaceAll pat rep cs)"

definition controlParams :: "string list" where
  "controlParams = [''epg'', ''language'', ''update_interval'', ''epg_enabled'']"

function stripParams :: "string \<Rightarrow> string" where
  "stripParams [] = []"
| "stripParams (c # cs) =
     (case find (\<lambda>k. prefix (CHR ''&'' # k @ ''='') (c # cs)) controlParams of
        Some k \<Rightarrow> stripParams (dropWhile (\<lambda>x. x \<noteq> CHR '','') (drop (length k + 1) cs))
      | None \<Rightarrow> c # stripParams cs)"
  by pat_completeness auto
termination
  by (relation "measure length")
     (auto intro: le_less_trans [OF length_dropWhile_le] le_imp_less_Suc)

definition decodedUrls :: "string \<Rightarrow> string" where
  \<comment> \<open>the variable \<open>decodedUrls\<close> after the \<open>try\<close> statement: the \<open>catch\<close> block puts the
      raw \<open>urls\<close> back, and the two rewriting steps have not run then\<close>
  "decodedUrls urls =
     (case decodeLoop urls of
        None \<Rightarrow> urls
      | Some d \<Rightarrow> stripParams (replaceAll ''&amp;'' ''&'' (replaceAll ''&#38;'' ''&'' d)))"

definition splitUrls :: "string \<Rightarrow> string list" where
  \<comment> \<open>\<open>d.split(',').map(u => u.trim()).filter(u => u && u.startsWith('http'))\<close>\<close>
  "splitUrls d = filter (\<lambda>u. u \<noteq> [] \<and> startsWith u ''http'') (map trim (splitOn CHR '','' d))"

definition urlList :: "string \<Rightarrow> string list" where
  "urlList urls = splitUrls (decodedUrls urls)"

text \<open>
  Three notions used to state properties of the normalizer, none of them part of the
  program: the list of URLs written again as one comma-separated string; a string on which
  the rewriting steps of the normalizer have nothing to do (no \<open>%\<close>, no HTML entity for
  \<open>&\<close>, no control parameter); and one successful decoding step of the loop.
\<close>

fun commaJoin :: "string list \<Rightarrow> string" where
  "commaJoin [] = []"
| "commaJoin [u] = u"
| "commaJoin (u # v # us) = u @ CHR '','' # commaJoin (v # us)"

definition alreadyNormalized :: "string \<Rightarrow> bool" where
  "alreadyNormalized y =
     (\<not> includesChar y CHR ''%'' \<and> \<not> sublist ''&#38;'' y \<and> \<not> sublist ''&amp;'' y
      \<and> \<not> list_ex (\<lambda>k. sublist (CHR ''&'' # k @ ''='') y) controlParams)"

definition decodeStep :: "string \<Rightarrow> string \<Rightarrow> bool" where
  "decodeStep a b = (includesChar a CHR ''%'' \<and> decodeURIComponent a = Some b)"

section \<open>The playlist parser\<close>

text \<open>
  The host is what the program takes from its JavaScript runtime and cannot be read off the
  source: the Unicode case mapping of \<open>toLowerCase\<close> for a string with characters beyond
  ASCII, the offset of local time from UTC (in milliseconds, for a local time value) and
  the local formatting of a time. On an ASCII string \<open>toLowerCase\<close> changes the capitals
  \<open>A\<close> to \<open>Z\<close> and nothing else, on every host.
\<close>

record host =
  unicodeLowerCase :: "string \<Rightarrow> string"
  localTZA :: "int \<Rightarrow> int"
  toLocaleTimeString :: "int \<Rightarrow> string"

definition isAscii :: "char \<Rightarrow> bool" where
  "isAscii c = ((of_char c :: nat) < 128)"

definition toLowerCase :: "host \<Rightarrow> string \<Rightarrow> string" where
  \<comment> \<open>\<open>s.toLowerCase()\<close>\<close>
  "toLowerCase h s =
     (if list_all isAscii s
      then map (\<lambda>c. if charBetween CHR ''A'' CHR ''Z'' c then char_of (of_char c + (32 :: nat)) else c) s
      else unicodeLowerCase h s)"

text \<open>
  The regular expressions of the parser, each as the function that returns its capture
  group, \<open>None\<close> when there is no match.
  \<^item> \<open>/,(.*)$/\<close> (\<open>matchName\<close>): the match starts at the leftmost comma after which no
    line terminator follows; the group is the rest of the string.
  \<^item> \<open>/key="([^"]+)"/\<close> (\<open>matchQuoted key\<close>): the leftmost occurrence of \<open>key="\<close> that is
    followed by at least one character other than a quote and then by a quote.
  \<^item> \<open>\w\<close> is \<open>isWordChar\<close>: the ASCII letters and digits and the underscore.

  \<open>replaceNonWord\<close> is \<open>s.replace(/[^\w]/g, '_')\<close>: one \<open>_\<close> for each UTF-16 code unit that is
  not a word character. A character beyond ASCII is one code unit when its UTF-8 sequence
  has two or three bytes and two code units when it has four; its continuation bytes
  (\<open>0x80\<close> to \<open>0xBF\<close>) add nothing. \<open>decimal\<close> is the conversion of the source index to
  text in the template literal.
\<close>

definition isWordChar :: "char \<Rightarrow> bool" where
  "isWordChar c =
     (charBetween CHR ''a'' CHR ''z'' c \<or> charBetween CHR ''A'' CHR ''Z'' c
      \<or> charBetween CHR ''0'' CHR ''9'' c \<or> c = CHR ''_'')"

definition replaceNonWord :: "string \<Rightarrow> string" where
  "replaceNonWord s =
     concat (map (\<lambda>c. if isWordChar c then [c]
                       else if charBetween (CHR 0x80) (CHR 0xBF) c then []
                       else if charBetween (CHR 0xF0) (CHR 0xFF) c then ''__''
                       else ''_'') s)"

fun hasLineTerminator :: "string \<Rightarrow> bool" where
  "hasLineTerminator [] = False"
| "hasLineTerminator (c # cs) =
     (c = CHR 0x0A \<or> c = CHR 0x0D
      \<or> prefix [CHR 0xE2, CHR 0x80, CHR 0xA8] (c # cs)
      \<or> prefix [CHR 0xE2, CHR 0x80, CHR 0xA9] (c # cs)
      \<or> hasLineTerminator cs)"

fun matchName :: "string \<Rightarrow> string option" where
  "matchName [] = None"
| "matchName (c # cs) =
     (if c = CHR '','' \<and> \<not> hasLineTerminator cs then Some cs else matchName cs)"

fun matchQuoted :: "string \<Rightarrow> string \<Rightarrow> string option" where
  "matchQuoted key [] = None"
| "matchQuoted key (c # cs) =
     (if prefix (key @ [CHR ''='', CHR 0x22]) (c # cs) then
        (let rest = drop (length key + 2) (c # cs);
             v = takeWhile (\<lambda>x. x \<noteq> CHR 0x22) rest
         in if v \<noteq> [] \<and> length v < length rest then Some v else matchQuoted key cs)
      else matchQuoted key cs)"

function decimal :: "nat \<Rightarrow> string" where
  "decimal n = (if n < 10 then [char_of (48 + n)] else decimal (n div 10) @ [char_of (48 + n mod 10)])"
  by pat_completeness auto
termination
  by (relation "measure id") auto

declare decimal.simps [simp del]

text \<open>
  The channel object, with the fields of the source (\<open>id\<close>, \<open>name\<close> and \<open>group\<close> are
  \<open>channel_id\<close>, \<open>channel_name\<close> and \<open>channel_group\<close>; \<open>streamInfo.urls\<close> is \<open>stream_urls\<close>),
  and the result \<open>{channels, genres}\<close> of \<open>parseM3U\<close>. The set \<open>genres\<close> is the list of
  its elements in insertion order, as \<open>Array.from\<close> returns them.
\<close>

record tvg_info =
  tvg_id :: string
  tvg_name :: string

record stream_entry =
  url :: string
  stream_name :: string
  headers :: "(string \<times> string) list"

record stream_info =
  stream_urls :: "stream_entry list"
  tvg :: tvg_info

record channel =
  channel_id :: string
  channel_name :: string
  tvgId :: string
  logo :: "string option"
  channel_group :: string
  sourceIndex :: nat
  streamInfo :: stream_info

record catalog =
  channels :: "channel list"
  genres :: "string list"

record parse_state = catalog +
  currentChannel :: "channel option"
  channelCount :: nat

text \<open>
  The loop over the lines of one source is \<open>parseLines\<close>: a metadata line sets the pending
  channel (\<open>extinfChannel\<close>) and adds its group to the genres; a stream line with a pending
  channel attaches the stream (\<open>pushUrl\<close>), commits the channel and clears the pending
  one, and the \<open>break\<close> at the cap ends the loop over the lines of this source. The
  loop over the sources is \<open>parseSources\<close>. \<open>get urlIndex url\<close> is the text that
  \<open>axios.get\<close> returns for the source, \<open>None\<close> when the request throws or the body is not
  a text: the \<open>catch\<close> of the source logs it and the loop goes on with the next source.
  \<open>maxChannels\<close> is \<open>cache.maxChannels\<close>.
\<close>

definition addGenre :: "string \<Rightarrow> string list \<Rightarrow> string list" where
  "addGenre g gs = (if g \<in> set gs then gs else gs @ [g])"

definition uniqueId :: "string \<Rightarrow> nat \<Rightarrow> string" where
  "uniqueId tid urlIndex = ''tv|'' @ tid @ ''_'' @ decimal urlIndex"

definition extinfChannel :: "host \<Rightarrow> nat \<Rightarrow> string \<Rightarrow> channel" where
  "extinfChannel h urlIndex line =
     (let metadata = trim (drop 8 line);
          name = (case matchName metadata of Some n \<Rightarrow> trim n | None \<Rightarrow> ''Unknown'');
          tid = (case matchQuoted ''tvg-id'' metadata of
                   Some t \<Rightarrow> t
                 | None \<Rightarrow> replaceNonWord (toLowerCase h name));
          lg = matchQuoted ''tvg-logo'' metadata;
          grp = (case matchQuoted ''group-title'' metadata of
                   Some g \<Rightarrow> g
                 | None \<Rightarrow> ''Other Channels'')
      in \<lparr>channel_id = uniqueId tid urlIndex, channel_name = name, tvgId = tid, logo = lg,
          channel_group = grp, sourceIndex = urlIndex,
          streamInfo = \<lparr>stream_urls = [], tvg = \<lparr>tvg_id = tid, tvg_name = name\<rparr>\<rparr>\<rparr>)"

definition pushUrl :: "string \<Rightarrow> channel \<Rightarrow> channel" where
  "pushUrl line ch =
     ch\<lparr>streamInfo := (streamInfo ch)\<lparr>stream_urls := stream_urls (streamInfo ch)
        @ [\<lparr>url = line, stream_name = channel_name ch,
            headers = [(''User-Agent'', ''Mozilla/5.0'')]\<rparr>]\<rparr>\<rparr>"

fun parseLines :: "host \<Rightarrow> nat \<Rightarrow> nat \<Rightarrow> string list \<Rightarrow> parse_state \<Rightarrow> parse_state" where
  "parseLines h maxChannels urlIndex [] st = st"
| "parseLines h maxChannels urlIndex (l # ls) st =
     (let line = trim l in
      if startsWith line ''#EXTINF:'' then
        (let ch = extinfChannel h urlIndex line in
         parseLines h maxChannels urlIndex ls
           (st\<lparr>genres := addGenre (channel_group ch) (genres st), currentChannel := Some ch\<rparr>))
      else if line \<noteq> [] \<and> (startsWith line ''http'' \<or> startsWith line ''rtmp'') then
        (case currentChannel st of
           None \<Rightarrow> parseLines h maxChannels urlIndex ls st
         | Some ch \<Rightarrow>
             (let st' = st\<lparr>channels := channels st @ [pushUrl line ch],
                           channelCount := channelCount st + 1,
                           currentChannel := None\<rparr>
              in if length (channels st') \<ge> maxChannels then st'
                 else parseLines h maxChannels urlIndex ls st'))
      else parseLines h maxChannels urlIndex ls st)"

fun parseSources ::
  "host \<Rightarrow> nat \<Rightarrow> (nat \<Rightarrow> string \<Rightarrow> string option) \<Rightarrow> nat \<Rightarrow> string list \<Rightarrow> catalog
     \<Rightarrow> catalog" where
  "parseSources h maxChannels get urlIndex [] acc = acc"
| "parseSources h maxChannels get urlIndex (u # us) acc =
     (case get urlIndex u of
        None \<Rightarrow> parseSources h maxChannels get (urlIndex + 1) us acc
      | Some data \<Rightarrow>
          (let st = parseLines h maxChannels urlIndex (splitOn CHR 0x0A data)
                      \<lparr>channels = channels acc, genres = genres acc,
                       currentChannel = None, channelCount = 0\<rparr>
           in parseSources h maxChannels get (urlIndex + 1) us
                \<lparr>channels = channels st, genres = genres st\<rparr>))"

definition parseM3U ::
  "host \<Rightarrow> nat \<Rightarrow> (nat \<Rightarrow> string \<Rightarrow> string option) \<Rightarrow> string \<Rightarrow> catalog" where
  "parseM3U h maxChannels get urls =
     parseSources h maxChannels get 0 (urlList urls)
       \<lparr>channels = [], genres = [''Other Channels'']\<rparr>"

text \<open>
  A notion used to state where the channels of a catalog come from, not part of the
  program: the channels that the text of one source yields when it is parsed alone, with
  its index, under a cap that it cannot reach (a source commits at most one channel for
  each of its lines).
\<close>

definition sourceChannels :: "host \<Rightarrow> nat \<Rightarrow> string \<Rightarrow> channel list" where
  "sourceChannels h k data =
     channels (parseLines h (length data + 2) k (splitOn CHR 0x0A data)
       \<lparr>channels = [], genres = [], currentChannel = None, channelCount = 0\<rparr>)"

section \<open>The update interval\<close>

definition parseUpdateInterval :: "string option \<Rightarrow> number" where
  \<comment> \<open>\<open>intervalStr\<close> is \<open>None\<close> when the query has no \<open>update_interval\<close>;
      \<open>!intervalStr\<close> holds for that and for the empty string\<close>
  "parseUpdateInterval intervalStr =
     (case intervalStr of
        None \<Rightarrow> Finite (2 * 60 * 60 * 1000)
      | Some s \<Rightarrow>
          if s = [] then Finite (2 * 60 * 60 * 1000)
          else
            (let parts = splitOn CHR '':'' s in
             if length parts = 2 then
               (let hours = orElse (parseInt (parts ! 0)) (Finite 2);
                    minutes = orElse (parseInt (parts ! 1)) (Finite 0)
                in numberMul (numberMul (numberAdd (numberMul hours (Finite 60)) minutes)
                                (Finite 60)) (Finite 1000))
             else Finite (2 * 60 * 60 * 1000)))"

definition isHHMM :: "string \<Rightarrow> bool" where
  \<comment> \<open>the form \<open>HH:MM\<close> of the specification: two digits, a colon, two digits\<close>
  "isHHMM s =
     (case s of
        [h1, h2, c, m1, m2] \<Rightarrow> isDigit h1 \<and> isDigit h2 \<and> c = CHR '':'' \<and> isDigit m1 \<and> isDigit m2
      | _ \<Rightarrow> False)"

section \<open>The guide: programme lookup\<close>

text \<open>
  The parsed guide document, as \<open>getCurrentProgram\<close> reads it: \<open>epgData.tv.programme\<close> is
  absent, one programme or an array of programmes. A programme has an attribute object
  under \<open>$\<close> (here \<open>attrs\<close>) or lacks it, and it may carry \<open>channel\<close>, \<open>start\<close> and \<open>stop\<close>
  as properties of its own (here \<open>merged_channel\<close>, \<open>merged_start\<close>, \<open>merged_stop\<close>), which
  \<open>getCurrentProgram\<close> does not read. \<open>title\<close> and \<open>desc\<close> are absent, a text, an object with
  an optional text under \<open>_\<close>, or an array of those.

  The XML parser puts the attributes of an element under \<open>$\<close> by default, as
  \<open>SimpleEPGManager.loadEPG\<close> calls it. \<open>parseEPG\<close> calls it with \<open>mergeAttrs: true\<close>, which makes
  the attributes properties of the element itself and leaves no \<open>$\<close>.

  A \<open>Date\<close> is its time value, the milliseconds since the epoch; for the four-digit years
  of \<open>parseEPGDate\<close> it is far inside the range that \<open>Date\<close> accepts.
\<close>

datatype xml_node = Text string | Element "string option"

datatype xml_content = Missing | One xml_node | Many "xml_node list"

record programme_attrs =
  attr_channel :: "string option"
  attr_start :: "string option"
  attr_stop :: "string option"

record programme =
  attrs :: "programme_attrs option"
  merged_channel :: "string option"
  merged_start :: "string option"
  merged_stop :: "string option"
  title :: xml_content
  desc :: xml_content

datatype programme_list = Single programme | Array "programme list"

record tv_element =
  programme :: "programme_list option"

record epg_data =
  tv :: "tv_element option"

record now_playing =
  np_title :: string
  np_description :: string
  np_start :: string
  np_stop :: string

definition dayFromYearMonth :: "int \<Rightarrow> int \<Rightarrow> int" where
  "dayFromYearMonth ym mn =
     (let y = (if mn < 2 then ym - 1 else ym);
          era = y div 400;
          yoe = y - era * 400;
          mp = (if mn < 2 then mn + 10 else mn - 2);
          doy = (153 * mp + 2) div 5;
          doe = yoe * 365 + yoe div 4 - yoe div 100 + doy
      in era * 146097 + doe - 719468)"

definition makeDay :: "int \<Rightarrow> int \<Rightarrow> int \<Rightarrow> int" where
  "makeDay year month date = dayFromYearMonth (year + month div 12) (month mod 12) + date - 1"

definition makeTime :: "int \<Rightarrow> int \<Rightarrow> int \<Rightarrow> int \<Rightarrow> int" where
  "makeTime hour minute sec ms = hour * 3600000 + minute * 60000 + sec * 1000 + ms"

definition newDate :: "host \<Rightarrow> int \<Rightarrow> int \<Rightarrow> int \<Rightarrow> int \<Rightarrow> int \<Rightarrow> int \<Rightarrow> int" where
  "newDate h year month date hours minutes seconds =
     (let yr = (if 0 \<le> year \<and> year \<le> 99 then 1900 + year else year);
          t = makeDay yr month date * 86400000 + makeTime hours minutes seconds 0
      in t - localTZA h t)"

definition substr :: "string \<Rightarrow> nat \<Rightarrow> nat \<Rightarrow> string" where
  "substr s from len = take len (drop from s)"

definition parseEPGDate :: "host \<Rightarrow> string option \<Rightarrow> int option" where
  \<comment> \<open>\<open>None\<close> is \<open>null\<close>. The six fields are runs of digits, so \<open>parseInt\<close> gives a finite
      number for each.\<close>
  "parseEPGDate h dateString =
     (case dateString of
        None \<Rightarrow> None
      | Some s \<Rightarrow>
          if s = [] then None
          else if \<not> (14 \<le> length s \<and> list_all isDigit (take 14 s)) then None
          else
            (let d = take 14 s in
             case (parseInt (substr d 0 4), parseInt (substr d 4 2), parseInt (substr d 6 2),
                   parseInt (substr d 8 2), parseInt (substr d 10 2), parseInt (substr d 12 2)) of
               (Finite y, Finite mo, Finite dd, Finite hh, Finite mi, Finite ss) \<Rightarrow>
                 Some (newDate h y (mo - 1) dd hh mi ss)
             | _ \<Rightarrow> None))"

definition normalizeId :: "host \<Rightarrow> string \<Rightarrow> string" where
  \<comment> \<open>\<open>s.toLowerCase().replace(/[^\w.]/g, '')\<close>\<close>
  "normalizeId h s = filter (\<lambda>c. isWordChar c \<or> c = CHR ''.'') (toLowerCase h s)"

fun nodeText :: "xml_node \<Rightarrow> string" where
  "nodeText (Text s) = s"
| "nodeText (Element u) = (case u of None \<Rightarrow> [] | Some s \<Rightarrow> s)"

fun getTextContent :: "xml_content \<Rightarrow> string" where
  "getTextContent Missing = []"
| "getTextContent (Many (n # ns)) = nodeText n"
| "getTextContent (Many []) = []"
| "getTextContent (One n) = nodeText n"

fun scanProgrammes :: "host \<Rightarrow> int \<Rightarrow> string \<Rightarrow> programme list \<Rightarrow> now_playing option" where
  "scanProgrammes h now normalizedId [] = None"
| "scanProgrammes h now normalizedId (program # rest) =
     (case attrs program of
        None \<Rightarrow> scanProgrammes h now normalizedId rest
      | Some a \<Rightarrow>
          if map_option (normalizeId h) (attr_channel a) = Some normalizedId then
            (case (parseEPGDate h (attr_start a), parseEPGDate h (attr_stop a)) of
               (Some start, Some stop) \<Rightarrow>
                 if start \<le> now \<and> stop \<ge> now then
                   Some \<lparr>np_title = getTextContent (title program),
                         np_description = getTextContent (desc program),
                         np_start = toLocaleTimeString h start,
                         np_stop = toLocaleTimeString h stop\<rparr>
                 else scanProgrammes h now normalizedId rest
             | _ \<Rightarrow> scanProgrammes h now normalizedId rest)
          else scanProgrammes h now normalizedId rest)"

definition getCurrentProgram :: "host \<Rightarrow> int \<Rightarrow> string \<Rightarrow> epg_data option \<Rightarrow> now_playing option" where
  "getCurrentProgram h now channelId epgData =
     (case epgData of
        None \<Rightarrow> None
      | Some e \<Rightarrow>
          (case tv e of
             None \<Rightarrow> None
           | Some t \<Rightarrow>
               (case programme t of
                  None \<Rightarrow> None
                | Some ps \<Rightarrow>
                    (let normalizedId = normalizeId h channelId;
                         programmes = (case ps of Array l \<Rightarrow> l | Single p \<Rightarrow> [p])
                     in scanProgrammes h now normalizedId programmes))))"

section \<open>The guide: fetching and parsing\<close>

text \<open>
  The network and the libraries are the parameter \<open>net\<close>: the \<open>HEAD\<close> request and the
  streaming \<open>GET\<close> request (\<open>None\<close> when axios throws), the gunzip transform, and the XML
  parser \<open>parseStringPromise\<close> (\<open>None\<close> when it rejects). The field \<open>parseStringPromise\<close>
  is the tree that the parser builds with the options \<open>trim\<close>, \<open>normalize\<close> and
  \<open>explicitArray: false\<close> and the attributes of an element under \<open>$\<close>; the option
  \<open>mergeAttrs: true\<close>, which \<open>parseEPG\<close> passes as well, is the function \<open>mergeAttrs\<close>
  applied to the programmes of that tree: the attributes become properties of the
  programme itself and no \<open>$\<close> is made. The body of the response is the
  list of events that the stream emits, in order, before the 45 second timer fires. The
  handlers registered by \<open>parseEPG\<close> run on them one by one. \<open>stream.destroy()\<close> is the
  flag \<open>destroyed\<close>: a destroyed stream delivers no further event to its handlers. The
  promise is the field \<open>resolved\<close>: the first call of \<open>resolve\<close> decides it, later calls
  change nothing.
\<close>

function cleanUrl :: "string \<Rightarrow> string" where
  "cleanUrl s =
     (if includesChar s CHR ''%'' then
        (case decodeURIComponent s of
           None \<Rightarrow> s
         | Some newDecoded \<Rightarrow> if newDecoded = s then s else cleanUrl newDecoded)
      else s)"
  by pat_completeness auto
termination
  by (relation "measure length") (auto simp: includesChar_def dest: decode_length)

declare cleanUrl.simps [simp del]

datatype stream_event = Data string | End | Error

record head_response =
  content_length :: "string option"

record get_response =
  content_encoding :: "string option"
  events :: "stream_event list"

record network =
  head :: "string \<Rightarrow> head_response option"
  getStream :: "string \<Rightarrow> get_response option"
  gunzip :: "stream_event list \<Rightarrow> stream_event list"
  parseStringPromise :: "string \<Rightarrow> epg_data option"

record accumulator =
  chunks :: "string list"
  totalSize :: nat
  destroyed :: bool
  resolved :: "epg_data option option"

definition maxSize :: nat where
  "maxSize = 50 * 1024 * 1024"

definition resolve :: "epg_data option \<Rightarrow> accumulator \<Rightarrow> accumulator" where
  "resolve v st = (if resolved st = None then st\<lparr>resolved := Some v\<rparr> else st)"

definition onData :: "string \<Rightarrow> accumulator \<Rightarrow> accumulator" where
  "onData chunk st =
     (let st1 = st\<lparr>totalSize := totalSize st + length chunk\<rparr> in
      if totalSize st1 > maxSize then st1\<lparr>destroyed := True\<rparr>
      else st1\<lparr>chunks := chunks st1 @ [chunk]\<rparr>)"

definition mergeAttrs :: "programme \<Rightarrow> programme" where
  "mergeAttrs p =
     (case attrs p of
        None \<Rightarrow> p
      | Some a \<Rightarrow>
          p\<lparr>attrs := None, merged_channel := attr_channel a, merged_start := attr_start a,
            merged_stop := attr_stop a\<rparr>)"

definition withMergedAttrs :: "epg_data \<Rightarrow> epg_data" where
  "withMergedAttrs e =
     e\<lparr>tv := map_option
         (\<lambda>t. t\<lparr>programme := map_option
                  (\<lambda>ps. case ps of
                          Single p \<Rightarrow> Single (mergeAttrs p)
                        | Array l \<Rightarrow> Array (map mergeAttrs l))
                  (programme t)\<rparr>)
         (tv e)\<rparr>"

definition onEnd :: "network \<Rightarrow> accumulator \<Rightarrow> accumulator" where
  \<comment> \<open>a rejected parse goes to the \<open>catch\<close> of the handler, which resolves with \<open>null\<close>\<close>
  "onEnd net st =
     (if chunks st = [] then resolve None st
      else
        (case parseStringPromise net (concat (chunks st)) of
           None \<Rightarrow> resolve None st
         | Some tree \<Rightarrow> resolve (Some (withMergedAttrs tree)) (st\<lparr>chunks := []\<rparr>)))"

definition onError :: "accumulator \<Rightarrow> accumulator" where
  "onError st = resolve None st"

definition onTimeout :: "accumulator \<Rightarrow> accumulator" where
  "onTimeout st = resolve None (st\<lparr>destroyed := True\<rparr>)"

definition deliver :: "network \<Rightarrow> accumulator \<Rightarrow> stream_event \<Rightarrow> accumulator" where
  "deliver net st ev =
     (if destroyed st then st
      else (case ev of Data chunk \<Rightarrow> onData chunk st | End \<Rightarrow> onEnd net st | Error \<Rightarrow> onError st))"

definition endsWith :: "string \<Rightarrow> string \<Rightarrow> bool" where
  "endsWith s p = suffix p s"

definition initialAccumulator :: accumulator where
  "initialAccumulator = \<lparr>chunks = [], totalSize = 0, destroyed = False, resolved = None\<rparr>"

definition streamPromise :: "network \<Rightarrow> stream_event list \<Rightarrow> epg_data option" where
  \<comment> \<open>The promise that \<open>parseEPG\<close> returns for a stream: its handlers run on the events, then
      the timer fires. The timer always decides a promise that is still open, so the
      promise has a value.\<close>
  "streamPromise net stream =
     (case resolved (onTimeout (foldl (deliver net) initialAccumulator stream)) of
        None \<Rightarrow> None
      | Some v \<Rightarrow> v)"

definition parseEPG :: "network \<Rightarrow> string option \<Rightarrow> epg_data option" where
  \<comment> \<open>\<open>None\<close> is \<open>null\<close>. \<open>epgUrl\<close> is \<open>None\<close> for an absent URL; \<open>!epgUrl\<close> holds for that and
      for the empty string. A request that throws leads to the outer \<open>catch\<close>.\<close>
  "parseEPG net epgUrl =
     (case epgUrl of
        None \<Rightarrow> None
      | Some u \<Rightarrow>
          if u = [] then None
          else
            (case head net (cleanUrl u) of
               None \<Rightarrow> None
             | Some headResponse \<Rightarrow>
                 (let contentLength =
                        parseInt (case content_length headResponse of
                                    None \<Rightarrow> ''0''
                                  | Some v \<Rightarrow> if v = [] then ''0'' else v)
                  in if greaterThan contentLength (Finite (100 * 1024 * 1024))
                     then None
                     else
                       (case getStream net (cleanUrl u) of
                          None \<Rightarrow> None
                        | Some response \<Rightarrow>
                            streamPromise net
                              (if endsWith (cleanUrl u) ''.gz''
                                  \<or> content_encoding response = Some ''gzip''
                               then gunzip net (events response)
                               else events response)))))"

text \<open>
  Notions used to state properties of the guide, none of them part of the program: whether
  an event is a chunk of data, and the size of its chunk; the programmes of a guide in
  document order; and an example host, in the UTC zone, that formats a time as
  \<open>h:mm:ss AM\<close> or \<open>PM\<close> (its case mapping beyond ASCII is never consulted, the examples
  are ASCII).
\<close>

fun isData :: "stream_event \<Rightarrow> bool" where
  "isData (Data chunk) = True"
| "isData ev = False"

fun chunkSize :: "stream_event \<Rightarrow> nat" where
  "chunkSize (Data chunk) = length chunk"
| "chunkSize ev = 0"

definition programmesOf :: "epg_data option \<Rightarrow> programme list" where
  "programmesOf guide =
     (case guide of
        None \<Rightarrow> []
      | Some e \<Rightarrow>
          (case tv e of
             None \<Rightarrow> []
           | Some t \<Rightarrow>
               (case programme t of None \<Rightarrow> [] | Some (Array l) \<Rightarrow> l | Some (Single p) \<Rightarrow> [p])))"

definition twoDigits :: "int \<Rightarrow> string" where
  "twoDigits n = [char_of (48 + n div 10), char_of (48 + n mod 10)]"

definition clock12 :: "int \<Rightarrow> string" where
  "clock12 t =
     (let s = (t div 1000) mod 86400;
          hh = s div 3600;
          h12 = (if hh mod 12 = 0 then 12 else hh mod 12)
      in (if h12 < 10 then [char_of (48 + h12)] else twoDigits h12) @ '':''
           @ twoDigits ((s div 60) mod 60) @ '':'' @ twoDigits (s mod 60)
           @ (if hh < 12 then '' AM'' else '' PM''))"

definition utcHost :: host where
  "utcHost = \<lparr>unicodeLowerCase = (\<lambda>s. s), localTZA = (\<lambda>t. 0), toLocaleTimeString = clock12\<rparr>"

section \<open>The cache and its refresh in the manifest route\<close>

record cache = catalog +
  epgData :: "epg_data option"
  lastUpdate :: "int option"
  m3uUrl :: "string option"
  maxChannels :: nat
  epgLastUpdate :: "int option"

definition initialCache :: cache where
  "initialCache =
     \<lparr>channels = [], genres = [], epgData = None, lastUpdate = None, m3uUrl = None,
      maxChannels = 10000, epgLastUpdate = None\<rparr>"

definition refreshDue :: "cache \<Rightarrow> string \<Rightarrow> number \<Rightarrow> int \<Rightarrow> bool" where
  \<comment> \<open>the condition of the \<open>if\<close> in the route; \<open>!cache.lastUpdate\<close> holds for \<open>null\<close> and for 0\<close>
  "refreshDue c m3u updateInterval now =
     (m3uUrl c \<noteq> Some m3u
      \<or> (case lastUpdate c of
           None \<Rightarrow> True
         | Some t \<Rightarrow> t = 0 \<or> greaterThan (Finite (now - t)) updateInterval))"

text \<open>
  A query parameter is absent, a string, or an array or object (the query parser gives
  those for a repeated or bracketed parameter). The playlist part of the route
  \<open>/manifest.json\<close> ends in one of three ways: the answer 400 when \<open>m3u\<close> is absent or
  empty; an exception, which the \<open>catch\<close> of the route answers with 500; or it goes on to
  the guide and the manifest. An exception is a \<open>TypeError\<close>: \<open>parseUpdateInterval\<close> and
  \<open>parseM3U\<close> call \<open>split\<close> on their argument, which only a string has (inside
  \<open>parseM3U\<close> its own \<open>catch\<close> takes an earlier \<open>TypeError\<close> and the \<open>split\<close> after it
  throws). The cache is assigned after \<open>parseM3U\<close> has returned, so an exception leaves
  it as it was.
\<close>

datatype query_value = QAbsent | QString string | QOther

datatype route_status = BadRequest | InternalError | Continues

definition refreshCache ::
  "host \<Rightarrow> (nat \<Rightarrow> string \<Rightarrow> string option) \<Rightarrow> int \<Rightarrow> int \<Rightarrow> string \<Rightarrow> number \<Rightarrow> cache \<Rightarrow> cache" where
  \<comment> \<open>the statement \<open>if (...) { ... }\<close> under the comment \<open>Update cache if needed\<close>, for a
      string \<open>m3u\<close>\<close>
  "refreshCache h get now finished q updateInterval c =
     (if refreshDue c q updateInterval now then
        (let result = parseM3U h (maxChannels c) get q in
         c\<lparr>channels := channels result, genres := genres result,
           m3uUrl := Some q, lastUpdate := Some finished\<rparr>)
      else c)"

definition manifestUpdateCache ::
  "host \<Rightarrow> (nat \<Rightarrow> string \<Rightarrow> string option) \<Rightarrow> int \<Rightarrow> int \<Rightarrow> query_value \<Rightarrow> query_value
     \<Rightarrow> cache \<Rightarrow> route_status \<times> cache" where
  \<comment> \<open>\<open>m3u\<close> and \<open>update_interval\<close> are the query parameters, \<open>now\<close> is \<open>Date.now()\<close> at the
      test, \<open>finished\<close> is \<open>Date.now()\<close> when \<open>parseM3U\<close> has returned\<close>
  "manifestUpdateCache h get now finished m3u update_interval c =
     (case m3u of
        QAbsent \<Rightarrow> (BadRequest, c)
      | QString q \<Rightarrow>
          if q = [] then (BadRequest, c)
          else
            (case update_interval of
               QOther \<Rightarrow> (InternalError, c)
             | QAbsent \<Rightarrow>
                 (Continues, refreshCache h get now finished q (parseUpdateInterval None) c)
             | QString s \<Rightarrow>
                 (Continues, refreshCache h get now finished q (parseUpdateInterval (Some s)) c))
      | QOther \<Rightarrow> (InternalError, c))"

section \<open>Properties\<close>

subsection \<open>The update interval\<close>

lemma roundDouble_exact: "\<bar>n\<bar> \<le> 2 ^ 53 \<Longrightarrow> roundDouble n = Finite n"
  by (simp add: roundDouble_def)

text \<open>
  C8, as stated, fails: the specification \<open>10:xx\<close> is not of the form \<open>HH:MM\<close>, and the
  result is ten hours, not the default of two hours.
\<close>

theorem parseUpdateInterval_malformed_counterexample:
  "\<not> isHHMM ''10:xx'' \<and> parseUpdateInterval (Some ''10:xx'') = Finite 36000000
     \<and> parseUpdateInterval (Some ''10:xx'') \<noteq> Finite 7200000"
  by code_simp

text \<open>
  C8, amended: \<open>parseUpdateInterval\<close> returns the default of two hours (7,200,000 ms) for an
  absent specification, for the empty one, for every specification that does not split at
  \<open>:\<close> into exactly two parts, and for a two-part specification in which neither part
  starts with a number. In a two-part specification each part falls back on its own: the
  hours to 2 when they are unreadable or zero, the minutes to 0 when they are unreadable;
  for hours and minutes up to \<open>10^9\<close> in magnitude the result is exactly
  \<open>(hours * 60 + minutes) * 60 * 1000\<close>.
\<close>

theorem parseUpdateInterval_default:
  "parseUpdateInterval None = Finite 7200000
   \<and> parseUpdateInterval (Some []) = Finite 7200000
   \<and> (length (splitOn CHR '':'' s) \<noteq> 2 \<longrightarrow> parseUpdateInterval (Some s) = Finite 7200000)
   \<and> (splitOn CHR '':'' s = [h, m] \<and> parseInt h = NaN \<and> parseInt m = NaN
        \<longrightarrow> parseUpdateInterval (Some s) = Finite 7200000)
   \<and> (splitOn CHR '':'' s = [h, m]
        \<and> orElse (parseInt h) (Finite 2) = Finite a \<and> orElse (parseInt m) (Finite 0) = Finite b
        \<and> \<bar>a\<bar> \<le> 10 ^ 9 \<and> \<bar>b\<bar> \<le> 10 ^ 9
        \<longrightarrow> parseUpdateInterval (Some s) = Finite ((a * 60 + b) * 60 * 1000))"
proof -
  have two: "parseUpdateInterval (Some s)
      = numberMul (numberMul (numberAdd (numberMul (orElse (parseInt h) (Finite 2)) (Finite 60))
          (orElse (parseInt m) (Finite 0))) (Finite 60)) (Finite 1000)"
    if "splitOn CHR '':'' s = [h, m]"
  proof -
    have "s \<noteq> []" using that by auto
    then show ?thesis using that by (simp add: parseUpdateInterval_def Let_def)
  qed
  have d: "parseUpdateInterval (Some s) = Finite 7200000"
    if "splitOn CHR '':'' s = [h, m]" "parseInt h = NaN" "parseInt m = NaN"
    using two [OF that(1)] that(2,3) by (simp add: orElse_def roundDouble_exact)
  have e: "parseUpdateInterval (Some s) = Finite ((a * 60 + b) * 60 * 1000)"
    if "splitOn CHR '':'' s = [h, m]" "orElse (parseInt h) (Finite 2) = Finite a"
      "orElse (parseInt m) (Finite 0) = Finite b" "\<bar>a\<bar> \<le> 10 ^ 9" "\<bar>b\<bar> \<le> 10 ^ 9"
  proof -
    have 1: "roundDouble (a * 60) = Finite (a * 60)"
      using that(4) by (intro roundDouble_exact) simp
    have 2: "roundDouble (a * 60 + b) = Finite (a * 60 + b)"
      using that(4,5) by (intro roundDouble_exact) simp
    have 3: "roundDouble ((a * 60 + b) * 60) = Finite ((a * 60 + b) * 60)"
      using that(4,5) by (intro roundDouble_exact) simp
    have 4: "roundDouble ((a * 60 + b) * 60 * 1000) = Finite ((a * 60 + b) * 60 * 1000)"
      using that(4,5) by (intro roundDouble_exact) simp
    show ?thesis
      unfolding two [OF that(1)] that(2,3) by (simp only: numberMul.simps numberAdd.simps 1 2 3 4)
  qed
  show ?thesis
    using d e by (simp add: parseUpdateInterval_def Let_def)
qed

theorem parseUpdateInterval_default_witness:
  "length (splitOn CHR '':'' ''1:2:3'') \<noteq> 2
   \<and> parseUpdateInterval (Some ''1:2:3'') = Finite 7200000
   \<and> splitOn CHR '':'' ''ab:cd'' = [''ab'', ''cd''] \<and> parseInt ''ab'' = NaN
   \<and> parseInt ''cd'' = NaN \<and> parseUpdateInterval (Some ''ab:cd'') = Finite 7200000
   \<and> splitOn CHR '':'' [CHR 0xC2, CHR 0xA0, CHR ''5'', CHR '':'', CHR 0xC2, CHR 0xA0, CHR ''7'']
       = [[CHR 0xC2, CHR 0xA0, CHR ''5''], [CHR 0xC2, CHR 0xA0, CHR ''7'']]
   \<and> orElse (parseInt [CHR 0xC2, CHR 0xA0, CHR ''5'']) (Finite 2) = Finite 5
   \<and> orElse (parseInt [CHR 0xC2, CHR 0xA0, CHR ''7'']) (Finite 0) = Finite 7
   \<and> parseUpdateInterval
        (Some [CHR 0xC2, CHR 0xA0, CHR ''5'', CHR '':'', CHR 0xC2, CHR 0xA0, CHR ''7''])
       = Finite 18420000"
proof -
  have a: "length (splitOn CHR '':'' ''1:2:3'') \<noteq> 2" by simp
  have b: "splitOn CHR '':'' ''ab:cd'' = [''ab'', ''cd'']" by simp
  have c: "parseInt ''ab'' = NaN" "parseInt ''cd'' = NaN"
    by code_simp+
  have d: "splitOn CHR '':'' [CHR 0xC2, CHR 0xA0, CHR ''5'', CHR '':'', CHR 0xC2, CHR 0xA0, CHR ''7'']
       = [[CHR 0xC2, CHR 0xA0, CHR ''5''], [CHR 0xC2, CHR 0xA0, CHR ''7'']]" by simp
  have e: "orElse (parseInt [CHR 0xC2, CHR 0xA0, CHR ''5'']) (Finite 2) = Finite 5"
    "orElse (parseInt [CHR 0xC2, CHR 0xA0, CHR ''7'']) (Finite 0) = Finite 7"
    by code_simp+
  have f: "\<bar>5 :: int\<bar> \<le> 10 ^ 9" "\<bar>7 :: int\<bar> \<le> 10 ^ 9" by simp_all
  show ?thesis
    using a b c d e f parseUpdateInterval_default [of "''1:2:3''"]
      parseUpdateInterval_default [of "''ab:cd''" "''ab''" "''cd''"]
      parseUpdateInterval_default
        [of "[CHR 0xC2, CHR 0xA0, CHR ''5'', CHR '':'', CHR 0xC2, CHR 0xA0, CHR ''7'']"
            "[CHR 0xC2, CHR 0xA0, CHR ''5'']" "[CHR 0xC2, CHR 0xA0, CHR ''7'']" 5 7]
    by simp
qed

subsection \<open>Invariants of the playlist parser\<close>

text \<open>
  A property \<open>Q\<close> holds of every committed channel when the pending channel built from
  a metadata line has a property \<open>R\<close> that attaching a stream turns into \<open>Q\<close>.
\<close>

lemma parseLines_channels_invariant:
  assumes new: "\<And>line. R (extinfChannel h i line)"
    and push: "\<And>line ch. R ch \<Longrightarrow> Q (pushUrl line ch)"
  shows "\<forall>c\<in>set (channels st). Q c \<Longrightarrow> (\<forall>ch. currentChannel st = Some ch \<longrightarrow> R ch)
     \<Longrightarrow> \<forall>c\<in>set (channels (parseLines h mx i ls st)). Q c"
proof (induction ls arbitrary: st)
  case Nil
  then show ?case by simp
next
  case (Cons l ls)
  show ?case
  proof (cases "startsWith (trim l) ''#EXTINF:''")
    case True
    have "\<forall>c\<in>set (channels (parseLines h mx i ls
             (st\<lparr>genres := addGenre (channel_group (extinfChannel h i (trim l))) (genres st),
                 currentChannel := Some (extinfChannel h i (trim l))\<rparr>))). Q c"
      by (rule Cons.IH) (use Cons.prems new in simp_all)
    with True show ?thesis by (simp add: Let_def)
  next
    case False
    show ?thesis
    proof (cases "trim l \<noteq> [] \<and> (startsWith (trim l) ''http'' \<or> startsWith (trim l) ''rtmp'')")
      case notUrl: False
      with False Cons show ?thesis by (auto simp add: Let_def)
    next
      case isUrl: True
      show ?thesis
      proof (cases "currentChannel st")
        case None
        with False isUrl Cons show ?thesis by (simp add: Let_def)
      next
        case (Some ch)
        define st' where "st' = st\<lparr>channels := channels st @ [pushUrl (trim l) ch],
                           channelCount := channelCount st + 1, currentChannel := None\<rparr>"
        have q: "\<forall>c\<in>set (channels st'). Q c"
          using Cons.prems Some push by (auto simp: st'_def)
        have "\<forall>c\<in>set (channels (parseLines h mx i ls st')). Q c"
          by (rule Cons.IH) (use q in \<open>simp_all add: st'_def\<close>)
        with q False isUrl Some show ?thesis
          by (simp add: Let_def st'_def)
      qed
    qed
  qed
qed

lemma parseSources_channels_invariant:
  assumes new: "\<And>i line. R (extinfChannel h i line)"
    and push: "\<And>line ch. R ch \<Longrightarrow> Q (pushUrl line ch)"
  shows "\<forall>c\<in>set (channels acc). Q c
     \<Longrightarrow> \<forall>c\<in>set (channels (parseSources h mx get i us acc)). Q c"
proof (induction us arbitrary: i acc)
  case Nil
  then show ?case by simp
next
  case (Cons u us)
  show ?case
  proof (cases "get i u")
    case None
    with Cons show ?thesis by simp
  next
    case (Some data)
    define st where "st = parseLines h mx i (splitOn CHR 0x0A data)
        \<lparr>channels = channels acc, genres = genres acc, currentChannel = None, channelCount = 0\<rparr>"
    have "\<forall>c\<in>set (channels st). Q c"
      unfolding st_def
    proof (rule parseLines_channels_invariant [where R = R and Q = Q])
      show "\<And>line. R (extinfChannel h i line)" by (rule new)
      show "\<And>line ch. R ch \<Longrightarrow> Q (pushUrl line ch)" by (rule push)
    qed (use Cons.prems in simp_all)
    then have "\<forall>c\<in>set (channels (parseSources h mx get (i + 1) us
                 \<lparr>channels = channels st, genres = genres st\<rparr>)). Q c"
      by (intro Cons.IH) simp
    with Some show ?thesis by (simp add: Let_def st_def)
  qed
qed

lemma parseM3U_channels_invariant:
  assumes "\<And>i line. R (extinfChannel h i line)"
    and "\<And>line ch. R ch \<Longrightarrow> Q (pushUrl line ch)"
  shows "\<forall>c\<in>set (channels (parseM3U h mx get urls)). Q c"
  unfolding parseM3U_def
proof (rule parseSources_channels_invariant [where R = R and Q = Q])
  show "\<And>i line. R (extinfChannel h i line)" by (rule assms(1))
  show "\<And>line ch. R ch \<Longrightarrow> Q (pushUrl line ch)" by (rule assms(2))
qed simp

lemma extinfChannel_no_stream: "stream_urls (streamInfo (extinfChannel h i line)) = []"
  by (simp add: extinfChannel_def Let_def)

lemma pushUrl_one_stream:
  "stream_urls (streamInfo ch) = [] \<Longrightarrow> length (stream_urls (streamInfo (pushUrl line ch))) = 1"
  by (simp add: pushUrl_def)

lemma parseM3U_one_stream:
  "\<forall>c\<in>set (channels (parseM3U h mx get urls)). length (stream_urls (streamInfo c)) = 1"
  by (rule parseM3U_channels_invariant [where R = "\<lambda>ch. stream_urls (streamInfo ch) = []"])
     (simp_all add: extinfChannel_no_stream pushUrl_one_stream)

lemma parseLines_channels_cong:
  "channels st = channels st' \<Longrightarrow> currentChannel st = currentChannel st'
     \<Longrightarrow> channels (parseLines h mx i ls st) = channels (parseLines h mx i ls st')"
proof (induction ls arbitrary: st st')
  case Nil
  then show ?case by simp
next
  case (Cons l ls)
  have a: "channels (parseLines h mx i ls (st\<lparr>genres := g, currentChannel := c\<rparr>))
         = channels (parseLines h mx i ls (st'\<lparr>genres := g', currentChannel := c\<rparr>))" for g g' c
    by (rule Cons.IH) (use Cons.prems in simp_all)
  have b: "channels (parseLines h mx i ls (st\<lparr>channels := cs, channelCount := n, currentChannel := c\<rparr>))
         = channels (parseLines h mx i ls
             (st'\<lparr>channels := cs, channelCount := n', currentChannel := c\<rparr>))" for cs n n' c
    by (rule Cons.IH) simp_all
  have c: "channels (parseLines h mx i ls st) = channels (parseLines h mx i ls st')"
    by (rule Cons.IH) (use Cons.prems in simp_all)
  show ?case
    using Cons.prems a b c by (simp add: Let_def split: option.splits)
qed

lemma parseLines_skip_metadata:
  assumes "startsWith (trim l1) ''#EXTINF:''" "startsWith (trim l2) ''#EXTINF:''"
  shows "channels (parseLines h mx i (l1 # l2 # ls) st) = channels (parseLines h mx i (l2 # ls) st)"
  using assms by (simp add: Let_def parseLines_channels_cong)

lemma parseLines_second_stream_ignored:
  assumes "trim l1 \<noteq> []" "startsWith (trim l1) ''http'' \<or> startsWith (trim l1) ''rtmp''"
    and "\<not> startsWith (trim l1) ''#EXTINF:''" "\<not> startsWith (trim l2) ''#EXTINF:''"
  shows "parseLines h mx i (l1 # l2 # ls) st = parseLines h mx i (l1 # ls) st"
  using assms by (auto simp add: Let_def split: option.splits)

lemma append_sep_inject:
  assumes "xs @ c # ys = xs' @ c # ys'" "c \<notin> set ys" "c \<notin> set ys'"
  shows "xs = xs' \<and> ys = ys'"
  using assms by (auto simp: append_eq_append_conv2 Cons_eq_append_conv append_eq_Cons_conv)

lemma digitsValue_snoc:
  "digitsValue r (ds @ [c]) = digitsValue r ds * int r + (case digitValue c of None \<Rightarrow> 0 | Some v \<Rightarrow> int v)"
  by (simp add: digitsValue_def)

lemma digitValue_digit: "d < 10 \<Longrightarrow> digitValue (char_of (48 + d)) = Some d"
  by (simp add: digitValue_def charBetween_def)

lemma digitsValue_decimal: "digitsValue 10 (decimal n) = int n"
proof (induction n rule: decimal.induct)
  case (1 n)
  show ?case
  proof (cases "n < 10")
    case True
    then show ?thesis by (simp add: decimal.simps digitsValue_def digitValue_digit)
  next
    case False
    then have "digitsValue 10 (decimal n) = int (n div 10) * 10 + int (n mod 10)"
      using 1 by (subst decimal.simps) (simp add: digitsValue_snoc digitValue_digit)
    then show ?thesis by (simp add: zdiv_int zmod_int)
  qed
qed

lemma decimal_inject: "decimal i = decimal j \<Longrightarrow> i = j"
  by (metis digitsValue_decimal of_nat_eq_iff)

lemma decimal_digits: "\<forall>c\<in>set (decimal n). isDigit c"
proof (induction n rule: decimal.induct)
  case (1 n)
  show ?case
  proof (cases "n < 10")
    case True
    then show ?thesis by (simp add: decimal.simps isDigit_def charBetween_def)
  next
    case False
    have "isDigit (char_of (48 + n mod 10))"
      by (simp add: isDigit_def charBetween_def)
    with False 1 show ?thesis by (subst decimal.simps) simp
  qed
qed

lemma uniqueId_inject: "uniqueId t i = uniqueId t' i' \<longleftrightarrow> t = t' \<and> i = i'"
proof
  assume eq: "uniqueId t i = uniqueId t' i'"
  have no: "CHR ''_'' \<notin> set (decimal k)" for k
    using decimal_digits [of k] by (auto simp: isDigit_def charBetween_def)
  from eq have "t @ CHR ''_'' # decimal i = t' @ CHR ''_'' # decimal i'"
    by (simp add: uniqueId_def)
  then have "t = t' \<and> decimal i = decimal i'"
    by (rule append_sep_inject) (rule no)+
  then show "t = t' \<and> i = i'" by (auto dest: decimal_inject)
qed simp

lemma parseM3U_channel_ids:
  "\<forall>c\<in>set (channels (parseM3U h mx get urls)). channel_id c = uniqueId (tvgId c) (sourceIndex c)"
  by (rule parseM3U_channels_invariant
        [where R = "\<lambda>c. channel_id c = uniqueId (tvgId c) (sourceIndex c)"])
     (simp_all add: extinfChannel_def pushUrl_def Let_def)

text \<open>
  C5: every channel that \<open>parseM3U\<close> commits has a non-empty sequence of streams; and a
  metadata line that is followed at once by another metadata line commits nothing: the
  channels are those of the same input without the first of the two lines.
\<close>

theorem committed_channel_has_stream:
  "(\<forall>c\<in>set (channels (parseM3U h mx get urls)). stream_urls (streamInfo c) \<noteq> [])
   \<and> (startsWith (trim l1) ''#EXTINF:'' \<and> startsWith (trim l2) ''#EXTINF:''
        \<longrightarrow> channels (parseLines h mx i (l1 # l2 # ls) st) = channels (parseLines h mx i (l2 # ls) st))"
proof -
  have "\<forall>c\<in>set (channels (parseM3U h mx get urls)). stream_urls (streamInfo c) \<noteq> []"
    using parseM3U_one_stream [of h mx get urls] by fastforce
  then show ?thesis
    using parseLines_skip_metadata [of l1 l2 h mx i ls st] by blast
qed

theorem committed_channel_has_stream_witness:
  "map channel_name (channels (parseM3U utcHost 10000
       (\<lambda>i u. if u = ''http://a'' then Some ''#EXTINF:-1,A\<newline>#EXTINF:-1,B\<newline>http://x'' else None)
       ''http://a'')) = [''B'']
   \<and> stream_urls (streamInfo (hd (channels (parseM3U utcHost 10000
       (\<lambda>i u. if u = ''http://a'' then Some ''#EXTINF:-1,A\<newline>#EXTINF:-1,B\<newline>http://x'' else None)
       ''http://a'')))) \<noteq> []
   \<and> startsWith (trim ''#EXTINF:-1,A'') ''#EXTINF:'' \<and> startsWith (trim ''#EXTINF:-1,B'') ''#EXTINF:''
   \<and> channels (parseLines utcHost 10000 0 [''#EXTINF:-1,A'', ''#EXTINF:-1,B'', ''http://x'']
         \<lparr>channels = [], genres = [''Other Channels''], currentChannel = None, channelCount = 0\<rparr>)
     = channels (parseLines utcHost 10000 0 [''#EXTINF:-1,B'', ''http://x'']
         \<lparr>channels = [], genres = [''Other Channels''], currentChannel = None, channelCount = 0\<rparr>)"
proof -
  have a: "map channel_name (channels (parseM3U utcHost 10000
       (\<lambda>i u. if u = ''http://a'' then Some ''#EXTINF:-1,A\<newline>#EXTINF:-1,B\<newline>http://x'' else None)
       ''http://a'')) = [''B'']"
    by code_simp
  then have hdin: "hd (channels (parseM3U utcHost 10000
       (\<lambda>i u. if u = ''http://a'' then Some ''#EXTINF:-1,A\<newline>#EXTINF:-1,B\<newline>http://x'' else None)
       ''http://a'')) \<in> set (channels (parseM3U utcHost 10000
       (\<lambda>i u. if u = ''http://a'' then Some ''#EXTINF:-1,A\<newline>#EXTINF:-1,B\<newline>http://x'' else None)
       ''http://a''))"
    by (intro hd_in_set) auto
  have b: "startsWith (trim ''#EXTINF:-1,A'') ''#EXTINF:''" "startsWith (trim ''#EXTINF:-1,B'') ''#EXTINF:''"
    by code_simp+
  show ?thesis
    using a b hdin committed_channel_has_stream [of utcHost 10000
        "\<lambda>i u. if u = ''http://a'' then Some ''#EXTINF:-1,A\<newline>#EXTINF:-1,B\<newline>http://x'' else None"
        "''http://a''" "''#EXTINF:-1,A''" "''#EXTINF:-1,B''" 0 "[''http://x'']"
        "\<lparr>channels = [], genres = [''Other Channels''], currentChannel = None, channelCount = 0\<rparr>"]
    by blast
qed

text \<open>
  C10: every channel that \<open>parseM3U\<close> commits carries exactly one stream entry; and after a
  stream line (which commits the pending channel, if there is one, and clears it) a further
  line that is not a metadata line is ignored: the result is that of the same input without
  that line.
\<close>

theorem committed_channel_has_one_stream:
  "(\<forall>c\<in>set (channels (parseM3U h mx get urls)). length (stream_urls (streamInfo c)) = 1)
   \<and> (trim l1 \<noteq> [] \<and> (startsWith (trim l1) ''http'' \<or> startsWith (trim l1) ''rtmp'')
        \<and> \<not> startsWith (trim l1) ''#EXTINF:'' \<and> \<not> startsWith (trim l2) ''#EXTINF:''
        \<longrightarrow> parseLines h mx i (l1 # l2 # ls) st = parseLines h mx i (l1 # ls) st)"
  using parseM3U_one_stream [of h mx get urls] parseLines_second_stream_ignored [of l1 l2 h mx i ls st]
  by blast

theorem committed_channel_has_one_stream_witness:
  "map (\<lambda>c. map url (stream_urls (streamInfo c))) (channels (parseM3U utcHost 10000
       (\<lambda>i u. if u = ''http://a'' then Some ''#EXTINF:-1,A\<newline>http://x\<newline>http://y'' else None)
       ''http://a'')) = [[''http://x'']]
   \<and> length (stream_urls (streamInfo (hd (channels (parseM3U utcHost 10000
       (\<lambda>i u. if u = ''http://a'' then Some ''#EXTINF:-1,A\<newline>http://x\<newline>http://y'' else None)
       ''http://a''))))) = 1
   \<and> trim ''http://x'' \<noteq> [] \<and> startsWith (trim ''http://x'') ''http''
   \<and> \<not> startsWith (trim ''http://x'') ''#EXTINF:'' \<and> \<not> startsWith (trim ''http://y'') ''#EXTINF:''
   \<and> parseLines utcHost 10000 0 [''http://x'', ''http://y'']
         \<lparr>channels = [], genres = [''Other Channels''],
          currentChannel = Some (extinfChannel utcHost 0 ''#EXTINF:-1,A''), channelCount = 0\<rparr>
     = parseLines utcHost 10000 0 [''http://x'']
         \<lparr>channels = [], genres = [''Other Channels''],
          currentChannel = Some (extinfChannel utcHost 0 ''#EXTINF:-1,A''), channelCount = 0\<rparr>"
proof -
  have a: "map (\<lambda>c. map url (stream_urls (streamInfo c))) (channels (parseM3U utcHost 10000
       (\<lambda>i u. if u = ''http://a'' then Some ''#EXTINF:-1,A\<newline>http://x\<newline>http://y'' else None)
       ''http://a'')) = [[''http://x'']]"
    by code_simp
  then have hdin: "hd (channels (parseM3U utcHost 10000
       (\<lambda>i u. if u = ''http://a'' then Some ''#EXTINF:-1,A\<newline>http://x\<newline>http://y'' else None)
       ''http://a'')) \<in> set (channels (parseM3U utcHost 10000
       (\<lambda>i u. if u = ''http://a'' then Some ''#EXTINF:-1,A\<newline>http://x\<newline>http://y'' else None)
       ''http://a''))"
    by (intro hd_in_set) auto
  have b: "trim ''http://x'' \<noteq> []" "startsWith (trim ''http://x'') ''http''"
    "\<not> startsWith (trim ''http://x'') ''#EXTINF:''" "\<not> startsWith (trim ''http://y'') ''#EXTINF:''"
    by code_simp+
  show ?thesis
    using a b hdin committed_channel_has_one_stream [of utcHost 10000
        "\<lambda>i u. if u = ''http://a'' then Some ''#EXTINF:-1,A\<newline>http://x\<newline>http://y'' else None"
        "''http://a''" "''http://x''" "''http://y''" 0 "[]"
        "\<lparr>channels = [], genres = [''Other Channels''],
          currentChannel = Some (extinfChannel utcHost 0 ''#EXTINF:-1,A''), channelCount = 0\<rparr>"]
    by blast
qed

text \<open>
  White space beyond ASCII is trimmed as well: a metadata line behind a byte order mark is
  a metadata line, and its channel is committed.
\<close>

lemma metadata_line_after_byte_order_mark:
  "trim ([CHR 0xEF, CHR 0xBB, CHR 0xBF] @ ''#EXTINF:-1,B'') = ''#EXTINF:-1,B''
   \<and> map channel_name (channels (parseLines utcHost 10000 0
         [''#EXTINF:-1,A'', ''http://x'', [CHR 0xEF, CHR 0xBB, CHR 0xBF] @ ''#EXTINF:-1,B'', ''http://y'']
         \<lparr>channels = [], genres = [''Other Channels''], currentChannel = None, channelCount = 0\<rparr>))
     = [''A'', ''B'']"
  by code_simp

subsection \<open>The channel cap\<close>

lemma splitOn_line: "c \<notin> set l \<Longrightarrow> splitOn c (l @ c # rest) = l # splitOn c rest"
  by (induction l) auto

lemma splitOn_pairs:
  "c \<notin> set l1 \<Longrightarrow> c \<notin> set l2
     \<Longrightarrow> splitOn c (concat (replicate n (l1 @ c # l2 @ [c])) @ rest)
         = concat (replicate n [l1, l2]) @ splitOn c rest"
proof (induction n)
  case 0
  then show ?case by simp
next
  case (Suc n)
  then show ?case by (simp add: splitOn_line)
qed

lemma currentChannel_update_same: "currentChannel st = c \<Longrightarrow> st\<lparr>currentChannel := c\<rparr> = st"
  by auto

lemma parseLines_pairs:
  assumes m: "startsWith (trim l1) ''#EXTINF:''"
    and u: "trim l2 \<noteq> []" "startsWith (trim l2) ''http''" "\<not> startsWith (trim l2) ''#EXTINF:''"
  shows "length (channels st) + n < mx \<Longrightarrow> currentChannel st = None
     \<Longrightarrow> channel_group (extinfChannel h i (trim l1)) \<in> set (genres st)
     \<Longrightarrow> parseLines h mx i (concat (replicate n [l1, l2]) @ rest) st
         = parseLines h mx i rest
             (st\<lparr>channels := channels st @ replicate n (pushUrl (trim l2) (extinfChannel h i (trim l1))),
                 channelCount := channelCount st + n\<rparr>)"
proof (induction n arbitrary: st)
  case 0
  then show ?case by simp
next
  case (Suc n)
  let ?ch = "pushUrl (trim l2) (extinfChannel h i (trim l1))"
  let ?st = "st\<lparr>channels := channels st @ [?ch], channelCount := channelCount st + 1\<rparr>"
  have step: "parseLines h mx i (l1 # l2 # concat (replicate n [l1, l2]) @ rest) st
            = parseLines h mx i (concat (replicate n [l1, l2]) @ rest) ?st"
    using m u Suc.prems by (simp add: Let_def addGenre_def currentChannel_update_same)
  have "parseLines h mx i (concat (replicate n [l1, l2]) @ rest) ?st
      = parseLines h mx i rest
          (?st\<lparr>channels := channels ?st @ replicate n ?ch, channelCount := channelCount ?st + n\<rparr>)"
    by (rule Suc.IH) (use Suc.prems in simp_all)
  with step show ?case by (simp add: replicate_app_Cons_same)
qed

lemma parseLines_last_pair:
  assumes m: "startsWith (trim l1) ''#EXTINF:''"
    and u: "trim l2 \<noteq> []" "startsWith (trim l2) ''http''" "\<not> startsWith (trim l2) ''#EXTINF:''"
    and full: "mx \<le> length (channels st) + 1"
  shows "parseLines h mx i (l1 # l2 # rest) st
       = st\<lparr>genres := addGenre (channel_group (extinfChannel h i (trim l1))) (genres st),
            channels := channels st @ [pushUrl (trim l2) (extinfChannel h i (trim l1))],
            channelCount := channelCount st + 1, currentChannel := None\<rparr>"
  using assms by (simp add: Let_def)

text \<open>A source of \<open>n > 0\<close> pairs of lines, parsed under the cap \<open>n\<close> from the empty catalog.\<close>

lemma parseLines_full_source:
  assumes m: "startsWith (trim l1) ''#EXTINF:''"
    and u: "trim l2 \<noteq> []" "startsWith (trim l2) ''http''" "\<not> startsWith (trim l2) ''#EXTINF:''"
    and g: "channel_group (extinfChannel h i (trim l1)) = ''Other Channels''"
    and n: "0 < n"
  shows "channels (parseLines h n i (concat (replicate n [l1, l2]) @ rest)
           \<lparr>channels = [], genres = [''Other Channels''], currentChannel = None, channelCount = 0\<rparr>)
       = replicate n (pushUrl (trim l2) (extinfChannel h i (trim l1)))"
    and "genres (parseLines h n i (concat (replicate n [l1, l2]) @ rest)
           \<lparr>channels = [], genres = [''Other Channels''], currentChannel = None, channelCount = 0\<rparr>)
       = [''Other Channels'']"
proof -
  obtain k where k: "n = Suc k" using n by (cases n) auto
  let ?st0 = "\<lparr>channels = [], genres = [''Other Channels''], currentChannel = None, channelCount = 0\<rparr>"
  let ?ch = "pushUrl (trim l2) (extinfChannel h i (trim l1))"
  have "replicate (Suc k) [l1, l2] = replicate k [l1, l2] @ [[l1, l2]]"
    by (simp add: replicate_append_same)
  then have split: "concat (replicate n [l1, l2]) @ rest = concat (replicate k [l1, l2]) @ (l1 # l2 # rest)"
    unfolding k by (simp only: concat_append) simp
  have a: "parseLines h n i (concat (replicate k [l1, l2]) @ (l1 # l2 # rest)) ?st0
         = parseLines h n i (l1 # l2 # rest)
             (?st0\<lparr>channels := channels ?st0 @ replicate k ?ch, channelCount := channelCount ?st0 + k\<rparr>)"
    by (rule parseLines_pairs [OF m u]) (simp_all add: k g)
  have b: "parseLines h n i (l1 # l2 # rest)
             (?st0\<lparr>channels := channels ?st0 @ replicate k ?ch, channelCount := channelCount ?st0 + k\<rparr>)
         = \<lparr>channels = replicate k ?ch @ [?ch], genres = [''Other Channels''],
            currentChannel = None, channelCount = k + 1\<rparr>"
    by (subst parseLines_last_pair [OF m u]) (simp_all add: k g addGenre_def)
  show "channels (parseLines h n i (concat (replicate n [l1, l2]) @ rest) ?st0) = replicate n ?ch"
    unfolding split a b by (simp add: k replicate_append_same)
  show "genres (parseLines h n i (concat (replicate n [l1, l2]) @ rest) ?st0) = [''Other Channels'']"
    unfolding split a b by simp
qed

lemma cap_exceeded_general:
  assumes n: "0 < n"
  defines "get \<equiv> (\<lambda>(i::nat) u.
      if u = ''http://a'' then Some (concat (replicate n ''#EXTINF:-1,A\<newline>http://x\<newline>''))
      else if u = ''http://b'' then Some ''#EXTINF:-1,B\<newline>http://y''
      else None)"
  shows "channels (parseM3U h n get ''http://a,http://b'')
       = replicate n (pushUrl ''http://x'' (extinfChannel h 0 ''#EXTINF:-1,A''))
         @ [pushUrl ''http://y'' (extinfChannel h (Suc 0) ''#EXTINF:-1,B'')]"
proof -
  let ?l1 = "''#EXTINF:-1,A''" and ?l2 = "''http://x''"
  let ?chA = "pushUrl ''http://x'' (extinfChannel h 0 ''#EXTINF:-1,A'')"
  let ?st0 = "\<lparr>channels = [], genres = [''Other Channels''], currentChannel = None, channelCount = 0\<rparr>"
  have urls: "urlList ''http://a,http://b'' = [''http://a'', ''http://b'']"
    by code_simp
  have t: "trim ?l1 = ?l1" "trim ?l2 = ?l2" "trim ''#EXTINF:-1,B'' = ''#EXTINF:-1,B''"
    "trim ''http://y'' = ''http://y''"
    by code_simp+
  have m: "startsWith (trim ?l1) ''#EXTINF:''"
    and u: "trim ?l2 \<noteq> []" "startsWith (trim ?l2) ''http''" "\<not> startsWith (trim ?l2) ''#EXTINF:''"
    and g: "channel_group (extinfChannel h 0 (trim ?l1)) = ''Other Channels''"
    by code_simp+
  have m': "startsWith (trim ''#EXTINF:-1,B'') ''#EXTINF:''"
    and u': "trim ''http://y'' \<noteq> []" "startsWith (trim ''http://y'') ''http''"
      "\<not> startsWith (trim ''http://y'') ''#EXTINF:''"
    by code_simp+
  have body: "''#EXTINF:-1,A\<newline>http://x\<newline>'' = ?l1 @ CHR 0x0A # ?l2 @ [CHR 0x0A]"
    by simp
  have lines0: "splitOn CHR 0x0A (concat (replicate n ''#EXTINF:-1,A\<newline>http://x\<newline>''))
              = concat (replicate n [?l1, ?l2]) @ [[]]"
    using splitOn_pairs [of "CHR 0x0A" ?l1 ?l2 n "[]"] unfolding body by simp
  have lines1: "splitOn CHR 0x0A ''#EXTINF:-1,B\<newline>http://y'' = [''#EXTINF:-1,B'', ''http://y'']"
    by simp
  have c0: "channels (parseLines h n 0 (concat (replicate n [?l1, ?l2]) @ [[]]) ?st0) = replicate n ?chA"
    and g0: "genres (parseLines h n 0 (concat (replicate n [?l1, ?l2]) @ [[]]) ?st0) = [''Other Channels'']"
    using parseLines_full_source [OF m u g n, of "[[]]"] by (simp_all only: t)
  have c1: "channels (parseLines h n (Suc 0) [''#EXTINF:-1,B'', ''http://y'']
              \<lparr>channels = replicate n ?chA, genres = [''Other Channels''],
               currentChannel = None, channelCount = 0\<rparr>)
          = replicate n ?chA @ [pushUrl ''http://y'' (extinfChannel h (Suc 0) ''#EXTINF:-1,B'')]"
    by (subst parseLines_last_pair [OF m' u']) (simp_all only: t, simp_all)
  have get0: "get 0 ''http://a'' = Some (concat (replicate n ''#EXTINF:-1,A\<newline>http://x\<newline>''))"
    and get1: "get (Suc 0) ''http://b'' = Some ''#EXTINF:-1,B\<newline>http://y''"
    by (simp_all add: get_def)
  show ?thesis
    unfolding parseM3U_def urls
    by (simp add: get0 get1 lines0 lines1 c0 g0 c1 Let_def del: parseLines.simps splitOn.simps)
qed

text \<open>
  C7: the code at the input that shows the defect, on every host. With the cap of 10,000,
  a first source of 10,000 channels and a second source of one channel, the second source
  is still fetched and parsed after the cap is reached, and its channel is committed: the
  catalog has 10,001 channels, the last one from source index 1. The \<open>break\<close> leaves the
  loop over the lines only; the loop over the sources goes on, and each later source adds
  its first channel.
\<close>

theorem cap_exceeded:
  "length (channels (parseM3U h 10000
      (\<lambda>i u. if u = ''http://a'' then Some (concat (replicate 10000 ''#EXTINF:-1,A\<newline>http://x\<newline>''))
             else if u = ''http://b'' then Some ''#EXTINF:-1,B\<newline>http://y''
             else None)
      ''http://a,http://b'')) = 10001
   \<and> map (\<lambda>c. (channel_name c, sourceIndex c, map url (stream_urls (streamInfo c))))
       (drop 10000 (channels (parseM3U h 10000
      (\<lambda>i u. if u = ''http://a'' then Some (concat (replicate 10000 ''#EXTINF:-1,A\<newline>http://x\<newline>''))
             else if u = ''http://b'' then Some ''#EXTINF:-1,B\<newline>http://y''
             else None)
      ''http://a,http://b''))) = [(''B'', 1, [''http://y''])]"
proof -
  have b: "(\<lambda>c. (channel_name c, sourceIndex c, map url (stream_urls (streamInfo c))))
             (pushUrl ''http://y'' (extinfChannel h (Suc 0) ''#EXTINF:-1,B'')) = (''B'', 1, [''http://y''])"
    by code_simp
  have "(0::nat) < 10000" by simp
  from cap_exceeded_general [OF this, of h] show ?thesis
    by (simp add: b)
qed

subsection \<open>Where the channels of a catalog come from\<close>

lemma splitOn_length: "length (splitOn c s) \<le> Suc (length s)"
  by (induction s) (auto split: list.splits)

text \<open>
  The channels that a source adds under the cap are a prefix of those it yields alone, and
  each carries the index of the source.
\<close>

lemma parseLines_adds_prefix:
  "currentChannel st = currentChannel st'
     \<Longrightarrow> (\<forall>ch. currentChannel st = Some ch
            \<longrightarrow> sourceIndex ch = i \<and> channel_id ch = uniqueId (tvgId ch) i)
     \<Longrightarrow> length (channels st') + length ls < M
     \<Longrightarrow> \<exists>p q. channels (parseLines h mx i ls st) = channels st @ p
             \<and> channels (parseLines h M i ls st') = channels st' @ q
             \<and> prefix p q
             \<and> (\<forall>c\<in>set q. sourceIndex c = i \<and> channel_id c = uniqueId (tvgId c) i)"
proof (induction ls arbitrary: st st')
  case Nil
  then show ?case by simp
next
  case (Cons l ls)
  show ?case
  proof (cases "startsWith (trim l) ''#EXTINF:''")
    case True
    let ?ch = "extinfChannel h i (trim l)"
    let ?g = "addGenre (channel_group ?ch)"
    have "\<exists>p q. channels (parseLines h mx i ls (st\<lparr>genres := ?g (genres st), currentChannel := Some ?ch\<rparr>))
               = channels (st\<lparr>genres := ?g (genres st), currentChannel := Some ?ch\<rparr>) @ p
             \<and> channels (parseLines h M i ls (st'\<lparr>genres := ?g (genres st'), currentChannel := Some ?ch\<rparr>))
               = channels (st'\<lparr>genres := ?g (genres st'), currentChannel := Some ?ch\<rparr>) @ q
             \<and> prefix p q
             \<and> (\<forall>c\<in>set q. sourceIndex c = i \<and> channel_id c = uniqueId (tvgId c) i)"
      by (rule Cons.IH) (use Cons.prems in \<open>simp_all add: extinfChannel_def Let_def\<close>)
    with True show ?thesis by (simp add: Let_def)
  next
    case False
    show ?thesis
    proof (cases "trim l \<noteq> [] \<and> (startsWith (trim l) ''http'' \<or> startsWith (trim l) ''rtmp'')")
      case notUrl: False
      have "\<exists>p q. channels (parseLines h mx i ls st) = channels st @ p
             \<and> channels (parseLines h M i ls st') = channels st' @ q
             \<and> prefix p q
             \<and> (\<forall>c\<in>set q. sourceIndex c = i \<and> channel_id c = uniqueId (tvgId c) i)"
        by (rule Cons.IH) (use Cons.prems in simp_all)
      with False notUrl show ?thesis by (auto simp add: Let_def)
    next
      case isUrl: True
      show ?thesis
      proof (cases "currentChannel st")
        case None
        have "\<exists>p q. channels (parseLines h mx i ls st) = channels st @ p
             \<and> channels (parseLines h M i ls st') = channels st' @ q
             \<and> prefix p q
             \<and> (\<forall>c\<in>set q. sourceIndex c = i \<and> channel_id c = uniqueId (tvgId c) i)"
          by (rule Cons.IH) (use Cons.prems in simp_all)
        moreover have "currentChannel st' = None" using None Cons.prems(1) by simp
        ultimately show ?thesis using False isUrl None by (simp add: Let_def)
      next
        case (Some ch)
        let ?c = "pushUrl (trim l) ch"
        let ?s = "st\<lparr>channels := channels st @ [?c], channelCount := channelCount st + 1,
                    currentChannel := None\<rparr>"
        let ?s' = "st'\<lparr>channels := channels st' @ [?c], channelCount := channelCount st' + 1,
                    currentChannel := None\<rparr>"
        have cur': "currentChannel st' = Some ch" using Some Cons.prems(1) by simp
        have ok: "sourceIndex ?c = i \<and> channel_id ?c = uniqueId (tvgId ?c) i"
          using Cons.prems(2) Some by (simp add: pushUrl_def)
        have noBreak: "\<not> M \<le> length (channels ?s')"
          using Cons.prems(3) by simp
        have "\<exists>p q. channels (parseLines h mx i ls ?s) = channels ?s @ p
             \<and> channels (parseLines h M i ls ?s') = channels ?s' @ q
             \<and> prefix p q
             \<and> (\<forall>c\<in>set q. sourceIndex c = i \<and> channel_id c = uniqueId (tvgId c) i)"
          by (rule Cons.IH) (use Cons.prems in simp_all)
        then obtain p q where pq: "channels (parseLines h mx i ls ?s) = channels ?s @ p"
          "channels (parseLines h M i ls ?s') = channels ?s' @ q" "prefix p q"
          "\<forall>c\<in>set q. sourceIndex c = i \<and> channel_id c = uniqueId (tvgId c) i"
          by blast
        have right: "channels (parseLines h M i (l # ls) st') = channels st' @ (?c # q)"
          using False isUrl cur' noBreak pq(2) by (simp add: Let_def)
        have allq: "\<forall>c\<in>set (?c # q). sourceIndex c = i \<and> channel_id c = uniqueId (tvgId c) i"
          using ok pq(4) by simp
        show ?thesis
        proof (cases "mx \<le> length (channels ?s)")
          case True
          then have "channels (parseLines h mx i (l # ls) st) = channels st @ [?c]"
            using False isUrl Some by (simp add: Let_def)
          moreover have "prefix [?c] (?c # q)" by simp
          ultimately show ?thesis using right allq by blast
        next
          case noBreak': False
          then have "channels (parseLines h mx i (l # ls) st) = channels st @ (?c # p)"
            using False isUrl Some pq(1) by (simp add: Let_def)
          moreover have "prefix (?c # p) (?c # q)" using pq(3) by simp
          ultimately show ?thesis using right allq by blast
        qed
      qed
    qed
  qed
qed

lemma parseLines_of_source:
  "\<exists>p. channels (parseLines h mx i (splitOn CHR 0x0A data)
            \<lparr>channels = cs, genres = gs, currentChannel = None, channelCount = 0\<rparr>) = cs @ p
       \<and> prefix p (sourceChannels h i data)
       \<and> (\<forall>c\<in>set p. sourceIndex c = i \<and> channel_id c = uniqueId (tvgId c) i)"
proof -
  let ?st = "\<lparr>channels = cs, genres = gs, currentChannel = None, channelCount = 0\<rparr>"
  let ?st' = "\<lparr>channels = [], genres = [], currentChannel = None, channelCount = 0\<rparr> :: parse_state"
  have "\<exists>p q. channels (parseLines h mx i (splitOn CHR 0x0A data) ?st) = channels ?st @ p
             \<and> channels (parseLines h (length data + 2) i (splitOn CHR 0x0A data) ?st')
                 = channels ?st' @ q
             \<and> prefix p q
             \<and> (\<forall>c\<in>set q. sourceIndex c = i \<and> channel_id c = uniqueId (tvgId c) i)"
    by (rule parseLines_adds_prefix)
       (use splitOn_length [of "CHR 0x0A" data] in simp_all)
  then obtain p q where pq: "channels (parseLines h mx i (splitOn CHR 0x0A data) ?st) = cs @ p"
    "sourceChannels h i data = q" "prefix p q"
    "\<forall>c\<in>set q. sourceIndex c = i \<and> channel_id c = uniqueId (tvgId c) i"
    by (auto simp: sourceChannels_def)
  moreover have "set p \<subseteq> set q" using pq(3) by (rule set_mono_prefix)
  ultimately show ?thesis by blast
qed

lemma parseSources_groups:
  "\<exists>gs. length gs = length us
     \<and> channels (parseSources h mx get i us acc) = channels acc @ concat gs
     \<and> (\<forall>k<length us.
           (case get (i + k) (us ! k) of
              None \<Rightarrow> gs ! k = []
            | Some data \<Rightarrow> prefix (gs ! k) (sourceChannels h (i + k) data))
           \<and> (\<forall>c\<in>set (gs ! k). sourceIndex c = i + k \<and> channel_id c = uniqueId (tvgId c) (i + k)))"
proof (induction us arbitrary: i acc)
  case Nil
  then show ?case by simp
next
  case (Cons u us)
  show ?case
  proof (cases "get i u")
    case None
    obtain gs where gs: "length gs = length us"
      "channels (parseSources h mx get (Suc i) us acc) = channels acc @ concat gs"
      "\<forall>k<length us.
           (case get (Suc i + k) (us ! k) of
              None \<Rightarrow> gs ! k = []
            | Some data \<Rightarrow> prefix (gs ! k) (sourceChannels h (Suc i + k) data))
           \<and> (\<forall>c\<in>set (gs ! k). sourceIndex c = Suc i + k
                 \<and> channel_id c = uniqueId (tvgId c) (Suc i + k))"
      using Cons.IH [of "Suc i" acc] by blast
    let ?gs = "[] # gs"
    have "length ?gs = length (u # us)" using gs(1) by simp
    moreover have "channels (parseSources h mx get i (u # us) acc) = channels acc @ concat ?gs"
      using None gs(2) by simp
    moreover have "\<forall>k<length (u # us).
           (case get (i + k) ((u # us) ! k) of
              None \<Rightarrow> ?gs ! k = []
            | Some data \<Rightarrow> prefix (?gs ! k) (sourceChannels h (i + k) data))
           \<and> (\<forall>c\<in>set (?gs ! k). sourceIndex c = i + k \<and> channel_id c = uniqueId (tvgId c) (i + k))"
    proof (intro allI impI)
      fix k assume "k < length (u # us)"
      then show "(case get (i + k) ((u # us) ! k) of
              None \<Rightarrow> ?gs ! k = []
            | Some data \<Rightarrow> prefix (?gs ! k) (sourceChannels h (i + k) data))
           \<and> (\<forall>c\<in>set (?gs ! k). sourceIndex c = i + k \<and> channel_id c = uniqueId (tvgId c) (i + k))"
        using None gs(3) by (cases k) (auto split: option.splits)
    qed
    ultimately show ?thesis by blast
  next
    case (Some data)
    define st where "st = parseLines h mx i (splitOn CHR 0x0A data)
        \<lparr>channels = channels acc, genres = genres acc, currentChannel = None, channelCount = 0\<rparr>"
    obtain p where p: "channels st = channels acc @ p" "prefix p (sourceChannels h i data)"
      "\<forall>c\<in>set p. sourceIndex c = i \<and> channel_id c = uniqueId (tvgId c) i"
      unfolding st_def using parseLines_of_source [of h mx i data "channels acc" "genres acc"] by blast
    obtain gs where gs: "length gs = length us"
      "channels (parseSources h mx get (Suc i) us \<lparr>channels = channels st, genres = genres st\<rparr>)
         = channels st @ concat gs"
      "\<forall>k<length us.
           (case get (Suc i + k) (us ! k) of
              None \<Rightarrow> gs ! k = []
            | Some data \<Rightarrow> prefix (gs ! k) (sourceChannels h (Suc i + k) data))
           \<and> (\<forall>c\<in>set (gs ! k). sourceIndex c = Suc i + k
                 \<and> channel_id c = uniqueId (tvgId c) (Suc i + k))"
      using Cons.IH [of "Suc i" "\<lparr>channels = channels st, genres = genres st\<rparr>"] by auto
    let ?gs = "p # gs"
    have "length ?gs = length (u # us)" using gs(1) by simp
    moreover have "channels (parseSources h mx get i (u # us) acc) = channels acc @ concat ?gs"
      using Some gs(2) p(1) by (simp add: Let_def st_def [symmetric])
    moreover have "\<forall>k<length (u # us).
           (case get (i + k) ((u # us) ! k) of
              None \<Rightarrow> ?gs ! k = []
            | Some data \<Rightarrow> prefix (?gs ! k) (sourceChannels h (i + k) data))
           \<and> (\<forall>c\<in>set (?gs ! k). sourceIndex c = i + k \<and> channel_id c = uniqueId (tvgId c) (i + k))"
    proof (intro allI impI)
      fix k assume "k < length (u # us)"
      then show "(case get (i + k) ((u # us) ! k) of
              None \<Rightarrow> ?gs ! k = []
            | Some data \<Rightarrow> prefix (?gs ! k) (sourceChannels h (i + k) data))
           \<and> (\<forall>c\<in>set (?gs ! k). sourceIndex c = i + k \<and> channel_id c = uniqueId (tvgId c) (i + k))"
        using Some p(2,3) gs(3) by (cases k) (auto split: option.splits)
    qed
    ultimately show ?thesis by blast
  qed
qed

text \<open>
  C2, as stated, fails: a source that repeats a \<open>tvg-id\<close> yields two channels with the
  same \<open>id\<close>.
\<close>

theorem channel_ids_distinct_counterexample:
  \<open>map channel_id (channels (parseM3U utcHost 10000
      (\<lambda>i u. if u = ''http://a''
         then Some ''#EXTINF:-1 tvg-id="x",A\<newline>http://s/1\<newline>#EXTINF:-1 tvg-id="x",B\<newline>http://s/2''
         else None)
      ''http://a'')) = [''tv|x_0'', ''tv|x_0'']
   \<and> \<not> distinct (map channel_id (channels (parseM3U utcHost 10000
      (\<lambda>i u. if u = ''http://a''
         then Some ''#EXTINF:-1 tvg-id="x",A\<newline>http://s/1\<newline>#EXTINF:-1 tvg-id="x",B\<newline>http://s/2''
         else None)
      ''http://a'')))\<close>
proof -
  have \<open>map channel_id (channels (parseM3U utcHost 10000
      (\<lambda>i u. if u = ''http://a''
         then Some ''#EXTINF:-1 tvg-id="x",A\<newline>http://s/1\<newline>#EXTINF:-1 tvg-id="x",B\<newline>http://s/2''
         else None)
      ''http://a'')) = [''tv|x_0'', ''tv|x_0'']\<close>
    by code_simp
  then show ?thesis by simp
qed

text \<open>
  C2, amended: the channels of a catalog are those added by the first source, then those
  added by the second, and so on; the channels added by source \<open>k\<close> are none when its fetch
  fails and otherwise an initial part (all of them, or those before the cap) of the
  channels that its text yields; each of them has the source index \<open>k\<close> and the \<open>id\<close>
  \<open>tv|\<close>, its \<open>tvgId\<close>, \<open>_\<close> and \<open>k\<close> in decimal. Two channels of the catalog have the same
  \<open>id\<close> exactly when they have the same \<open>tvgId\<close> and were added by the same source. So
  channels of different sources never share an \<open>id\<close>, also when they share a \<open>tvg-id\<close>.
\<close>

theorem channel_ids_by_source:
  "(\<exists>gs. length gs = length (urlList urls)
      \<and> channels (parseM3U h mx get urls) = concat gs
      \<and> (\<forall>k<length gs.
            (case get k (urlList urls ! k) of
               None \<Rightarrow> gs ! k = []
             | Some data \<Rightarrow> prefix (gs ! k) (sourceChannels h k data))
            \<and> (\<forall>c\<in>set (gs ! k).
                  sourceIndex c = k
                  \<and> channel_id c = ''tv|'' @ tvgId c @ ''_'' @ decimal k
                  \<and> (\<forall>j<length gs. \<forall>d\<in>set (gs ! j).
                        (channel_id c = channel_id d) = (tvgId c = tvgId d \<and> j = k)))))
   \<and> (\<forall>c\<in>set (channels (parseM3U h mx get urls)). \<forall>d\<in>set (channels (parseM3U h mx get urls)).
        channel_id c = ''tv|'' @ tvgId c @ ''_'' @ decimal (sourceIndex c)
        \<and> ((channel_id c = channel_id d) = (tvgId c = tvgId d \<and> sourceIndex c = sourceIndex d)))"
proof (intro conjI)
  obtain gs where gs: "length gs = length (urlList urls)"
    "channels (parseM3U h mx get urls) = concat gs"
    "\<forall>k<length (urlList urls).
           (case get k (urlList urls ! k) of
              None \<Rightarrow> gs ! k = []
            | Some data \<Rightarrow> prefix (gs ! k) (sourceChannels h k data))
           \<and> (\<forall>c\<in>set (gs ! k). sourceIndex c = k \<and> channel_id c = uniqueId (tvgId c) k)"
    unfolding parseM3U_def
    using parseSources_groups [of "urlList urls" h mx get 0
        "\<lparr>channels = [], genres = [''Other Channels'']\<rparr>", unfolded plus_nat.add_0]
    by auto
  have ids: "channel_id c = uniqueId (tvgId c) k" if "k < length gs" "c \<in> set (gs ! k)" for k c
    using gs(1,3) that by auto
  have "\<forall>k<length gs.
            (case get k (urlList urls ! k) of
               None \<Rightarrow> gs ! k = []
             | Some data \<Rightarrow> prefix (gs ! k) (sourceChannels h k data))
            \<and> (\<forall>c\<in>set (gs ! k).
                  sourceIndex c = k
                  \<and> channel_id c = ''tv|'' @ tvgId c @ ''_'' @ decimal k
                  \<and> (\<forall>j<length gs. \<forall>d\<in>set (gs ! j).
                        (channel_id c = channel_id d) = (tvgId c = tvgId d \<and> j = k)))"
  proof (intro allI impI conjI ballI)
    fix k assume k: "k < length gs"
    show "case get k (urlList urls ! k) of
               None \<Rightarrow> gs ! k = []
             | Some data \<Rightarrow> prefix (gs ! k) (sourceChannels h k data)"
      using gs(1,3) k by auto
    fix c assume c: "c \<in> set (gs ! k)"
    show "sourceIndex c = k" using gs(1,3) k c by auto
    show "channel_id c = ''tv|'' @ tvgId c @ ''_'' @ decimal k"
      using ids [OF k c] by (simp add: uniqueId_def)
    fix j d assume j: "j < length gs" and d: "d \<in> set (gs ! j)"
    show "(channel_id c = channel_id d) = (tvgId c = tvgId d \<and> j = k)"
      using ids [OF k c] ids [OF j d] by (auto simp: uniqueId_inject)
  qed
  with gs(1,2) show "\<exists>gs. length gs = length (urlList urls)
      \<and> channels (parseM3U h mx get urls) = concat gs
      \<and> (\<forall>k<length gs.
            (case get k (urlList urls ! k) of
               None \<Rightarrow> gs ! k = []
             | Some data \<Rightarrow> prefix (gs ! k) (sourceChannels h k data))
            \<and> (\<forall>c\<in>set (gs ! k).
                  sourceIndex c = k
                  \<and> channel_id c = ''tv|'' @ tvgId c @ ''_'' @ decimal k
                  \<and> (\<forall>j<length gs. \<forall>d\<in>set (gs ! j).
                        (channel_id c = channel_id d) = (tvgId c = tvgId d \<and> j = k))))"
    by blast
next
  show "\<forall>c\<in>set (channels (parseM3U h mx get urls)). \<forall>d\<in>set (channels (parseM3U h mx get urls)).
        channel_id c = ''tv|'' @ tvgId c @ ''_'' @ decimal (sourceIndex c)
        \<and> ((channel_id c = channel_id d) = (tvgId c = tvgId d \<and> sourceIndex c = sourceIndex d))"
  proof (intro ballI)
    fix c d
    assume "c \<in> set (channels (parseM3U h mx get urls))" "d \<in> set (channels (parseM3U h mx get urls))"
    then have "channel_id c = uniqueId (tvgId c) (sourceIndex c)"
      "channel_id d = uniqueId (tvgId d) (sourceIndex d)"
      using parseM3U_channel_ids [of h mx get urls] by blast+
    then show "channel_id c = ''tv|'' @ tvgId c @ ''_'' @ decimal (sourceIndex c)
       \<and> ((channel_id c = channel_id d) = (tvgId c = tvgId d \<and> sourceIndex c = sourceIndex d))"
      by (simp add: uniqueId_inject) (simp add: uniqueId_def)
  qed
qed

theorem channel_ids_by_source_witness:
  \<open>map (\<lambda>c. (channel_id c, tvgId c)) (channels (parseM3U utcHost 10000
      (\<lambda>i u. if u = ''http://a'' \<or> u = ''http://b''
         then Some ''#EXTINF:-1 tvg-id="x",A\<newline>http://s/1''
         else None)
      ''http://a,http://b''))
     = [(''tv|x_0'', ''x''), (''tv|x_1'', ''x'')]
   \<and> sourceIndex ((channels (parseM3U utcHost 10000
      (\<lambda>i u. if u = ''http://a'' \<or> u = ''http://b''
         then Some ''#EXTINF:-1 tvg-id="x",A\<newline>http://s/1''
         else None)
      ''http://a,http://b'')) ! 0) = 0
   \<and> sourceIndex ((channels (parseM3U utcHost 10000
      (\<lambda>i u. if u = ''http://a'' \<or> u = ''http://b''
         then Some ''#EXTINF:-1 tvg-id="x",A\<newline>http://s/1''
         else None)
      ''http://a,http://b'')) ! 1) = 1
   \<and> channel_id ((channels (parseM3U utcHost 10000
      (\<lambda>i u. if u = ''http://a'' \<or> u = ''http://b''
         then Some ''#EXTINF:-1 tvg-id="x",A\<newline>http://s/1''
         else None)
      ''http://a,http://b'')) ! 0) \<noteq> channel_id ((channels (parseM3U utcHost 10000
      (\<lambda>i u. if u = ''http://a'' \<or> u = ''http://b''
         then Some ''#EXTINF:-1 tvg-id="x",A\<newline>http://s/1''
         else None)
      ''http://a,http://b'')) ! 1)\<close>
proof -
  define get :: \<open>nat \<Rightarrow> string \<Rightarrow> string option\<close> where \<open>get = (\<lambda>i u. if u = ''http://a'' \<or> u = ''http://b''
         then Some ''#EXTINF:-1 tvg-id="x",A\<newline>http://s/1''
         else None)\<close>
  define X where \<open>X = channels (parseM3U utcHost 10000 get ''http://a,http://b'')\<close>
  have a: \<open>map (\<lambda>c. (channel_id c, tvgId c)) X = [(''tv|x_0'', ''x''), (''tv|x_1'', ''x'')]\<close>
    unfolding X_def get_def by code_simp
  have u: \<open>urlList ''http://a,http://b'' = [''http://a'', ''http://b'']\<close>
    by code_simp
  have one: \<open>length (sourceChannels utcHost 0 ''#EXTINF:-1 tvg-id="x",A\<newline>http://s/1'') = 1\<close>
    \<open>length (sourceChannels utcHost 1 ''#EXTINF:-1 tvg-id="x",A\<newline>http://s/1'') = 1\<close>
    by code_simp+
  have \<open>\<exists>gs. length gs = length (urlList ''http://a,http://b'')
      \<and> X = concat gs
      \<and> (\<forall>k<length gs.
            (case get k (urlList ''http://a,http://b'' ! k) of
               None \<Rightarrow> gs ! k = []
             | Some data \<Rightarrow> prefix (gs ! k) (sourceChannels utcHost k data))
            \<and> (\<forall>c\<in>set (gs ! k).
                  sourceIndex c = k
                  \<and> channel_id c = ''tv|'' @ tvgId c @ ''_'' @ decimal k
                  \<and> (\<forall>j<length gs. \<forall>d\<in>set (gs ! j).
                        (channel_id c = channel_id d) = (tvgId c = tvgId d \<and> j = k))))\<close>
    unfolding X_def
    by (rule conjunct1 [OF channel_ids_by_source [of \<open>''http://a,http://b''\<close> utcHost 10000 get]])
  then obtain gs where gs: \<open>length gs = length (urlList ''http://a,http://b'')\<close> \<open>X = concat gs\<close>
    \<open>\<forall>k<length gs.
            (case get k (urlList ''http://a,http://b'' ! k) of
               None \<Rightarrow> gs ! k = []
             | Some data \<Rightarrow> prefix (gs ! k) (sourceChannels utcHost k data))
            \<and> (\<forall>c\<in>set (gs ! k).
                  sourceIndex c = k
                  \<and> channel_id c = ''tv|'' @ tvgId c @ ''_'' @ decimal k
                  \<and> (\<forall>j<length gs. \<forall>d\<in>set (gs ! j).
                        (channel_id c = channel_id d) = (tvgId c = tvgId d \<and> j = k)))\<close>
    by blast
  have l2: \<open>length gs = 2\<close> using gs(1) u by simp
  then obtain g0 g1 where g: \<open>gs = [g0, g1]\<close>
    by (auto simp: length_Suc_conv numeral_2_eq_2)
  have k0: \<open>(0::nat) < length gs\<close> and k1: \<open>(1::nat) < length gs\<close> using l2 by simp_all
  have g0: \<open>prefix g0 (sourceChannels utcHost 0 ''#EXTINF:-1 tvg-id="x",A\<newline>http://s/1'')\<close>
    using gs(3) [rule_format, OF k0] by (simp add: u g get_def)
  have g1: \<open>prefix g1 (sourceChannels utcHost 1 ''#EXTINF:-1 tvg-id="x",A\<newline>http://s/1'')\<close>
    using gs(3) [rule_format, OF k1] by (simp add: u g get_def)
  have in0: \<open>\<forall>c\<in>set g0. sourceIndex c = 0 \<and> (\<forall>d\<in>set g1. channel_id c \<noteq> channel_id d)\<close>
  proof (intro ballI conjI)
    fix c assume \<open>c \<in> set g0\<close>
    then have c: \<open>c \<in> set (gs ! 0)\<close> by (simp add: g)
    from gs(3) [rule_format, OF k0] c have A: \<open>sourceIndex c = 0\<close>
      and B: \<open>\<forall>j<length gs. \<forall>d\<in>set (gs ! j).
                (channel_id c = channel_id d) = (tvgId c = tvgId d \<and> j = 0)\<close>
      by blast+
    show \<open>sourceIndex c = 0\<close> by (rule A)
    fix d assume \<open>d \<in> set g1\<close>
    then have \<open>d \<in> set (gs ! 1)\<close> by (simp add: g)
    with B k1 have \<open>(channel_id c = channel_id d) = (tvgId c = tvgId d \<and> (1::nat) = 0)\<close>
      by blast
    then show \<open>channel_id c \<noteq> channel_id d\<close> by simp
  qed
  have in1: \<open>\<forall>d\<in>set g1. sourceIndex d = 1\<close>
  proof
    fix d assume \<open>d \<in> set g1\<close>
    then have \<open>d \<in> set (gs ! 1)\<close> by (simp add: g)
    with gs(3) [rule_format, OF k1] show \<open>sourceIndex d = 1\<close> by blast
  qed
  have \<open>length g0 \<le> 1\<close> \<open>length g1 \<le> 1\<close>
    using prefix_length_le [OF g0] prefix_length_le [OF g1] one by simp_all
  moreover have \<open>length X = 2\<close>
  proof -
    have \<open>length X = length (map (\<lambda>c. (channel_id c, tvgId c)) X)\<close> by simp
    also have \<open>\<dots> = 2\<close> by (simp only: a) simp
    finally show ?thesis .
  qed
  moreover have \<open>X = g0 @ g1\<close> using gs(2) g by simp
  ultimately have \<open>length g0 = 1\<close> \<open>length g1 = 1\<close> by auto
  then obtain c d where cd: \<open>g0 = [c]\<close> \<open>g1 = [d]\<close>
    by (auto simp: length_Suc_conv)
  have x: \<open>X = [c, d]\<close> using gs(2) g cd by simp
  have \<open>sourceIndex c = 0\<close> \<open>sourceIndex d = 1\<close> \<open>channel_id c \<noteq> channel_id d\<close>
    using in0 in1 cd by simp_all
  then show ?thesis
    using a x unfolding X_def get_def by simp
qed

subsection \<open>The URL normalizer\<close>

lemma decodeLoop_no_percent: "\<not> includesChar y CHR ''%'' \<Longrightarrow> decodeLoop y = Some y"
  by (simp add: decodeLoop.simps)

lemma replaceAll_absent: "\<not> sublist p y \<Longrightarrow> replaceAll p r y = y"
  by (induction p r y rule: replaceAll.induct) (auto simp: sublist_Cons_right)

lemma stripParams_absent:
  "\<not> list_ex (\<lambda>k. sublist (CHR ''&'' # k @ ''='') y) controlParams \<Longrightarrow> stripParams y = y"
proof (induction y rule: stripParams.induct)
  case 1
  then show ?case by simp
next
  case (2 c cs)
  have none: "find (\<lambda>k. prefix (CHR ''&'' # k @ ''='') (c # cs)) controlParams = None"
    using 2(3) by (auto simp: find_None_iff list_ex_iff)
  have "\<not> list_ex (\<lambda>k. sublist (CHR ''&'' # k @ ''='') cs) controlParams"
    using 2(3) by (auto simp: list_ex_iff sublist_Cons_right)
  then have "stripParams cs = cs" by (rule 2(1) [OF none])
  then show ?case by (simp only: stripParams.simps none option.case)
qed

lemma decodedUrls_alreadyNormalized: "alreadyNormalized y \<Longrightarrow> decodedUrls y = y"
  by (simp add: alreadyNormalized_def decodedUrls_def decodeLoop_no_percent replaceAll_absent
      stripParams_absent)

lemma splitOn_nonempty: "splitOn c s \<noteq> []"
  by (induction s) (auto split: list.splits)

lemma splitOn_no_sep: "u \<in> set (splitOn c s) \<Longrightarrow> c \<notin> set u"
proof (induction s arbitrary: u)
  case Nil
  then show ?case by simp
next
  case (Cons x xs)
  then show ?case
    by (cases "splitOn c xs") (auto simp: splitOn_nonempty split: if_splits)
qed

lemma splitOn_absent: "c \<notin> set u \<Longrightarrow> splitOn c u = [u]"
  by (induction u) auto

lemma splitOn_append: "c \<notin> set u \<Longrightarrow> splitOn c (u @ c # rest) = u # splitOn c rest"
  by (induction u) auto

lemma splitOn_commaJoin:
  "\<forall>u\<in>set us. CHR '','' \<notin> set u \<Longrightarrow> us \<noteq> [] \<Longrightarrow> splitOn CHR '','' (commaJoin us) = us"
  by (induction us rule: commaJoin.induct) (auto simp: splitOn_absent splitOn_append)

lemma trimStart_drop: "\<exists>k. trimStart s = drop k s"
proof (induction s rule: trimStart.induct)
  case (1 s)
  show ?case
  proof (cases "find (\<lambda>w. prefix w s) whiteSpace")
    case None
    then have "trimStart s = drop 0 s" by (simp add: trimStart.simps [of s])
    then show ?thesis by blast
  next
    case (Some w)
    from 1 [OF Some] obtain k where "trimStart (drop (length w) s) = drop k (drop (length w) s)"
      by blast
    then have "trimStart s = drop (k + length w) s"
      using Some by (simp add: trimStart.simps [of s])
    then show ?thesis by blast
  qed
qed

lemma trimEnd_take: "\<exists>k. trimEnd s = take k s"
proof (induction s rule: trimEnd.induct)
  case (1 s)
  show ?case
  proof (cases "find (\<lambda>w. suffix w s) whiteSpace")
    case None
    then have "trimEnd s = take (length s) s" by (simp add: trimEnd.simps [of s])
    then show ?thesis by blast
  next
    case (Some w)
    from 1 [OF Some] obtain k
      where "trimEnd (take (length s - length w) s) = take k (take (length s - length w) s)"
      by blast
    then have "trimEnd s = take (min k (length s - length w)) s"
      using Some by (simp add: trimEnd.simps [of s])
    then show ?thesis by blast
  qed
qed

lemma trimStart_done: "find (\<lambda>w. prefix w (trimStart s)) whiteSpace = None"
proof (induction s rule: trimStart.induct)
  case (1 s)
  show ?case
  proof (cases "find (\<lambda>w. prefix w s) whiteSpace")
    case None
    then show ?thesis by (simp add: trimStart.simps [of s])
  next
    case (Some w)
    from 1 [OF Some] show ?thesis using Some by (simp add: trimStart.simps [of s])
  qed
qed

lemma trimEnd_done: "find (\<lambda>w. suffix w (trimEnd s)) whiteSpace = None"
proof (induction s rule: trimEnd.induct)
  case (1 s)
  show ?case
  proof (cases "find (\<lambda>w. suffix w s) whiteSpace")
    case None
    then show ?thesis by (simp add: trimEnd.simps [of s])
  next
    case (Some w)
    from 1 [OF Some] show ?thesis using Some by (simp add: trimEnd.simps [of s])
  qed
qed

lemma set_trim: "set (trim s) \<subseteq> set s"
proof -
  obtain k where "trimStart s = drop k s" using trimStart_drop by blast
  moreover obtain j where "trimEnd (trimStart s) = take j (trimStart s)"
    using trimEnd_take by blast
  ultimately have "trim s = take j (drop k s)" by (simp add: trim_def)
  then show ?thesis
    using set_take_subset [of j "drop k s"] set_drop_subset [of k s] by auto
qed

lemma trim_idem: "trim (trim s) = trim s"
proof -
  define d where "d = trimStart s"
  define t where "t = trimEnd d"
  have t: "trim s = t" by (simp add: trim_def d_def t_def)
  obtain k where k: "t = take k d" using trimEnd_take [of d] by (auto simp: t_def)
  have "find (\<lambda>w. prefix w d) whiteSpace = None"
    unfolding d_def by (rule trimStart_done)
  then have "\<forall>w\<in>set whiteSpace. \<not> prefix w d" by (simp add: find_None_iff)
  moreover have "prefix w d" if "prefix w t" for w
    using that k take_is_prefix [of k d] by (metis prefix_order.trans)
  ultimately have "find (\<lambda>w. prefix w t) whiteSpace = None"
    by (auto simp: find_None_iff)
  then have "trimStart t = t" by (simp add: trimStart.simps [of t])
  moreover have "trimEnd t = t"
    using trimEnd_done [of d] by (simp add: t_def trimEnd.simps [of "trimEnd d"])
  ultimately have "trim t = t" by (simp add: trim_def)
  then show ?thesis by (simp add: t)
qed

lemma trim_empty: "trim [] = []"
  using set_trim [of "[]"] by simp

lemma splitUrls_elements:
  "u \<in> set (splitUrls d) \<Longrightarrow> trim u = u \<and> u \<noteq> [] \<and> startsWith u ''http'' \<and> CHR '','' \<notin> set u"
  using set_trim by (auto simp: splitUrls_def trim_idem dest!: splitOn_no_sep)

lemma splitUrls_commaJoin:
  assumes "\<forall>u\<in>set us. trim u = u \<and> u \<noteq> [] \<and> startsWith u ''http'' \<and> CHR '','' \<notin> set u"
  shows "splitUrls (commaJoin us) = us"
proof (cases "us = []")
  case True
  then show ?thesis by (simp add: splitUrls_def trim_empty)
next
  case False
  then have "splitOn CHR '','' (commaJoin us) = us"
    using assms by (intro splitOn_commaJoin) auto
  moreover have "map trim us = us" using assms by (simp add: map_idI)
  moreover have "filter (\<lambda>u. u \<noteq> [] \<and> startsWith u ''http'') us = us"
    using assms by (simp add: filter_id_conv)
  ultimately show ?thesis by (simp add: splitUrls_def)
qed

lemma urlList_decodeStep:
  "decodeStep x x' \<Longrightarrow> decodeLoop x' \<noteq> None \<Longrightarrow> decodeLoop x = decodeLoop x'"
  by (subst decodeLoop.simps) (auto simp: decodeStep_def decodeLoop_no_percent decodeLoop.simps [of x'])

lemma decodeLoop_steps:
  "decodeStep\<^sup>*\<^sup>* x x' \<Longrightarrow> decodeLoop x' \<noteq> None \<Longrightarrow> decodeLoop x = decodeLoop x'"
proof (induction rule: converse_rtranclp_induct)
  case base
  then show ?case by simp
next
  case (step y z)
  then show ?case using urlList_decodeStep [of y z] by simp
qed

text \<open>
  C3, amended: normalizing the output of the normalizer again returns it unchanged when the
  output, written as a comma-separated list, contains no \<open>%\<close>, no HTML entity for \<open>&\<close>
  and no control parameter. And further levels of percent-encoding do not change the
  output as long as the repeated decoding does not fail: if \<open>urls\<close> decodes in some number
  of successful steps to \<open>urls'\<close>, and the loop does not fail on \<open>urls'\<close>, both have the
  same URL list.
\<close>

theorem normalization_idempotent_when_clean:
  "(alreadyNormalized (commaJoin (urlList urls))
      \<longrightarrow> urlList (commaJoin (urlList urls)) = urlList urls)
   \<and> (decodeStep\<^sup>*\<^sup>* urls urls' \<and> decodeLoop urls' \<noteq> None \<longrightarrow> urlList urls = urlList urls')"
proof -
  have "splitUrls (commaJoin (urlList urls)) = urlList urls"
    by (rule splitUrls_commaJoin) (use splitUrls_elements in \<open>auto simp: urlList_def\<close>)
  then have "alreadyNormalized (commaJoin (urlList urls))
      \<Longrightarrow> urlList (commaJoin (urlList urls)) = urlList urls"
    by (simp add: urlList_def [of "commaJoin _"] decodedUrls_alreadyNormalized)
  moreover have "urlList urls = urlList urls'" if "decodeStep\<^sup>*\<^sup>* urls urls'" "decodeLoop urls' \<noteq> None"
    using decodeLoop_steps [OF that] that(2) by (auto simp add: urlList_def decodedUrls_def)
  ultimately show ?thesis by blast
qed

text \<open>
  C3, as stated, fails: the entity \<open>&amp;\<close> is rewritten once, so an input with a doubly
  escaped ampersand before a control parameter gives an output that the next normalization
  changes again.
\<close>

theorem normalization_idempotent_counterexample:
  "urlList ''http://a/&amp;amp;epg=x'' = [''http://a/&amp;epg=x'']
   \<and> commaJoin (urlList ''http://a/&amp;amp;epg=x'') = ''http://a/&amp;epg=x''
   \<and> urlList (commaJoin (urlList ''http://a/&amp;amp;epg=x'')) = [''http://a/'']
   \<and> urlList (commaJoin (urlList ''http://a/&amp;amp;epg=x'')) \<noteq> urlList ''http://a/&amp;amp;epg=x''"
  by code_simp

theorem normalization_idempotent_when_clean_witness:
  "urlList ''http%3A%2F%2Fa%2Fp%3Fx%3D1%26y%3D2, http://b'' = [''http://a/p?x=1&y=2'', ''http://b'']
   \<and> alreadyNormalized (commaJoin (urlList ''http%3A%2F%2Fa%2Fp%3Fx%3D1%26y%3D2, http://b''))
   \<and> urlList (commaJoin (urlList ''http%3A%2F%2Fa%2Fp%3Fx%3D1%26y%3D2, http://b''))
     = urlList ''http%3A%2F%2Fa%2Fp%3Fx%3D1%26y%3D2, http://b''
   \<and> decodeStep ''http%253A%252F%252Fa'' ''http%3A%2F%2Fa''
   \<and> decodeLoop ''http%3A%2F%2Fa'' \<noteq> None
   \<and> urlList ''http%253A%252F%252Fa'' = urlList ''http%3A%2F%2Fa''"
proof -
  have a: "urlList ''http%3A%2F%2Fa%2Fp%3Fx%3D1%26y%3D2, http://b'' = [''http://a/p?x=1&y=2'', ''http://b'']"
    by code_simp
  have b: "alreadyNormalized (commaJoin (urlList ''http%3A%2F%2Fa%2Fp%3Fx%3D1%26y%3D2, http://b''))"
    by code_simp
  have c: "decodeStep ''http%253A%252F%252Fa'' ''http%3A%2F%2Fa''"
    by code_simp
  have d: "decodeLoop ''http%3A%2F%2Fa'' \<noteq> None"
    by code_simp
  from c have e: "decodeStep\<^sup>*\<^sup>* ''http%253A%252F%252Fa'' ''http%3A%2F%2Fa''"
    by (rule r_into_rtranclp)
  show ?thesis
    using a b c d e
      normalization_idempotent_when_clean [of "''http%3A%2F%2Fa%2Fp%3Fx%3D1%26y%3D2, http://b''"]
      normalization_idempotent_when_clean [of "''http%253A%252F%252Fa''" "''http%3A%2F%2Fa''"]
    by blast
qed

subsection \<open>Decoding failures\<close>

lemma cleanUrl_reachable: "decodeStep\<^sup>*\<^sup>* s (cleanUrl s)"
proof (induction s rule: cleanUrl.induct)
  case (1 s)
  show ?case
  proof (cases "includesChar s CHR ''%''")
    case False
    then show ?thesis by (simp add: cleanUrl.simps)
  next
    case True
    show ?thesis
    proof (cases "decodeURIComponent s")
      case None
      with True show ?thesis by (simp add: cleanUrl.simps)
    next
      case (Some t)
      show ?thesis
      proof (cases "t = s")
        case True
        with Some \<open>includesChar s CHR ''%''\<close> show ?thesis by (simp add: cleanUrl.simps)
      next
        case False
        have "decodeStep s t" using True Some by (simp add: decodeStep_def)
        moreover have "decodeStep\<^sup>*\<^sup>* t (cleanUrl t)" using 1 True Some False by simp
        moreover have "cleanUrl s = cleanUrl t"
          using True Some False by (simp add: cleanUrl.simps [of s])
        ultimately show ?thesis by simp
      qed
    qed
  qed
qed

lemma cleanUrl_failed:
  "decodeLoop s = None \<Longrightarrow> includesChar (cleanUrl s) CHR ''%'' \<and> decodeURIComponent (cleanUrl s) = None"
proof (induction s rule: decodeLoop.induct)
  case (1 s)
  from 1(2) have p: "includesChar s CHR ''%''"
    by (auto simp: decodeLoop.simps [of s] split: if_splits)
  show ?case
  proof (cases "decodeURIComponent s")
    case None
    with p show ?thesis by (simp add: cleanUrl.simps [of s])
  next
    case (Some t)
    with 1(2) p have ne: "t \<noteq> s" and l: "decodeLoop t = None"
      by (auto simp: decodeLoop.simps [of s] split: if_splits)
    have "cleanUrl s = cleanUrl t"
      using p Some ne by (simp add: cleanUrl.simps [of s])
    with 1(1) [OF p Some ne l] show ?thesis by simp
  qed
qed

text \<open>
  C9, amended: neither decoder aborts. When a decoding step of the loop in \<open>parseM3U\<close>
  fails, the normalizer falls back to the original raw input, not to the last decoded
  value, and splits it as it is: the entities and the control parameters are not
  rewritten either. The loop in \<open>parseEPG\<close> keeps the last successfully decoded value:
  \<open>cleanUrl\<close> is reached from the input by successful decoding steps, and in the failing
  case it is the value on which \<open>decodeURIComponent\<close> threw.
\<close>

theorem decode_failure_fallback:
  "(decodeLoop urls = None \<longrightarrow>
      decodedUrls urls = urls \<and> urlList urls = splitUrls urls
      \<and> includesChar (cleanUrl urls) CHR ''%'' \<and> decodeURIComponent (cleanUrl urls) = None)
   \<and> decodeStep\<^sup>*\<^sup>* urls (cleanUrl urls)"
  using cleanUrl_failed [of urls] cleanUrl_reachable [of urls]
  by (simp add: decodedUrls_def urlList_def)

text \<open>
  C9, as stated, fails for the playlist normalizer: the first decoding of the input succeeds,
  the second throws, and the URL list is that of the raw input, not that of the last
  decoded value.
\<close>

theorem decode_failure_fallback_counterexample:
  "decodeURIComponent ''http://a/%2541%25'' = Some ''http://a/%41%''
   \<and> decodeURIComponent ''http://a/%41%'' = None
   \<and> urlList ''http://a/%2541%25'' = [''http://a/%2541%25'']
   \<and> splitUrls ''http://a/%41%'' = [''http://a/%41%'']
   \<and> urlList ''http://a/%2541%25'' \<noteq> splitUrls ''http://a/%41%''"
  by code_simp

theorem decode_failure_fallback_witness:
  "decodeLoop ''http://a/%2541%25&epg=x'' = None
   \<and> decodedUrls ''http://a/%2541%25&epg=x'' = ''http://a/%2541%25&epg=x''
   \<and> urlList ''http://a/%2541%25&epg=x'' = [''http://a/%2541%25&epg=x'']
   \<and> cleanUrl ''http://a/%2541%25&epg=x'' = ''http://a/%41%&epg=x''
   \<and> decodeURIComponent (cleanUrl ''http://a/%2541%25&epg=x'') = None"
proof -
  have a: "decodeLoop ''http://a/%2541%25&epg=x'' = None"
    by code_simp
  have b: "splitUrls ''http://a/%2541%25&epg=x'' = [''http://a/%2541%25&epg=x'']"
    "cleanUrl ''http://a/%2541%25&epg=x'' = ''http://a/%41%&epg=x''"
    by code_simp+
  show ?thesis
    using a b decode_failure_fallback [of "''http://a/%2541%25&epg=x''"]
    by simp
qed

subsection \<open>The cache refresh\<close>

lemma parseSources_all_fail:
  "(\<forall>k<length us. get (i + k) (us ! k) = None) \<Longrightarrow> parseSources h mx get i us acc = acc"
proof (induction us arbitrary: i)
  case Nil
  then show ?case by simp
next
  case (Cons u us)
  have "get i u = None" using Cons.prems by fastforce
  moreover have "\<forall>k<length us. get (Suc i + k) (us ! k) = None"
    using Cons.prems by fastforce
  ultimately show ?case using Cons.IH [of "Suc i"] by simp
qed

lemma parseM3U_all_fail:
  "(\<forall>k<length (urlList urls). get k (urlList urls ! k) = None)
     \<Longrightarrow> parseM3U h mx get urls = \<lparr>channels = [], genres = [''Other Channels'']\<rparr>"
  unfolding parseM3U_def using parseSources_all_fail [of "urlList urls" get 0] by simp

text \<open>A source that fails leaves the catalog as a source with an empty text does.\<close>

lemma parseLines_empty_document:
  "parseLines h mx i (splitOn CHR 0x0A [])
     \<lparr>channels = channels acc, genres = genres acc, currentChannel = None, channelCount = 0\<rparr>
   = \<lparr>channels = channels acc, genres = genres acc, currentChannel = None, channelCount = 0\<rparr>"
  by (simp add: trim_empty startsWith_def)

lemma catalog_eta: "\<lparr>channels = channels acc, genres = genres acc\<rparr> = (acc :: catalog)"
  by (cases acc) simp

lemma parseSources_failed_as_empty:
  "(\<forall>k<length us. get' (i + k) (us ! k)
       = (case get (i + k) (us ! k) of None \<Rightarrow> Some [] | Some d \<Rightarrow> Some d))
     \<Longrightarrow> parseSources h mx get i us acc = parseSources h mx get' i us acc"
proof (induction us arbitrary: i acc)
  case Nil
  then show ?case by simp
next
  case (Cons u us)
  have here: "get' i u = (case get i u of None \<Rightarrow> Some [] | Some d \<Rightarrow> Some d)"
    using Cons.prems by fastforce
  have "\<forall>k<length us. get' (Suc i + k) (us ! k)
       = (case get (Suc i + k) (us ! k) of None \<Rightarrow> Some [] | Some d \<Rightarrow> Some d)"
    using Cons.prems by fastforce
  then have rest: "parseSources h mx get (Suc i) us a = parseSources h mx get' (Suc i) us a" for a
    by (rule Cons.IH)
  show ?case
  proof (cases "get i u")
    case None
    then have "get' i u = Some []" using here by simp
    then have "parseSources h mx get' i (u # us) acc = parseSources h mx get' (Suc i) us acc"
      by (simp add: parseLines_empty_document catalog_eta del: splitOn.simps parseLines.simps)
    then show ?thesis using None rest by simp
  next
    case (Some d)
    then have "get' i u = Some d" using here by simp
    then show ?thesis using Some rest by (simp add: Let_def del: parseLines.simps)
  qed
qed

lemma parseM3U_failed_as_empty:
  "(\<forall>k<length (urlList urls). get' k (urlList urls ! k)
       = (case get k (urlList urls ! k) of None \<Rightarrow> Some [] | Some d \<Rightarrow> Some d))
     \<Longrightarrow> parseM3U h mx get urls = parseM3U h mx get' urls"
  unfolding parseM3U_def using parseSources_failed_as_empty [of "urlList urls" get' 0 get] by simp

lemma manifestUpdateCache_strings:
  "q \<noteq> [] \<Longrightarrow>
     manifestUpdateCache h get now finished (QString q)
       (case iv of None \<Rightarrow> QAbsent | Some s \<Rightarrow> QString s) c
     = (Continues, refreshCache h get now finished q (parseUpdateInterval iv) c)"
  by (simp add: manifestUpdateCache_def split: option.splits)

text \<open>
  C1, amended: a read of the manifest whose \<open>m3u\<close> and \<open>update_interval\<close> parameters are
  texts refreshes the cache when the key differs, no refresh is recorded or the update
  interval has elapsed, and the refresh replaces the cached channels and genres by the
  catalog that \<open>parseM3U\<close> returns and stamps \<open>lastUpdate\<close>. In that catalog a source that
  cannot be fetched is skipped: it contributes what a source with an empty text contributes,
  and the other sources contribute as before. When every fetch fails, the catalog is the
  empty one (no channel, the genre \<open>Other Channels\<close> alone), and it replaces the previous
  snapshot. A later read with the same key within the update interval does not refresh: it
  leaves the cache as it is. A read whose \<open>m3u\<close> or \<open>update_interval\<close> parameter is not a text
  is answered with the status 500 and leaves the cache as it is.
\<close>

theorem refresh_failure_replaces_snapshot:
  "(q \<noteq> [] \<and> refreshDue c q (parseUpdateInterval iv) now
     \<longrightarrow> manifestUpdateCache h get now finished (QString q)
           (case iv of None \<Rightarrow> QAbsent | Some s \<Rightarrow> QString s) c
         = (Continues,
            c\<lparr>channels := channels (parseM3U h (maxChannels c) get q),
              genres := genres (parseM3U h (maxChannels c) get q),
              m3uUrl := Some q, lastUpdate := Some finished\<rparr>))
   \<and> ((\<forall>k<length (urlList q). get' k (urlList q ! k)
          = (case get k (urlList q ! k) of None \<Rightarrow> Some [] | Some d \<Rightarrow> Some d))
     \<longrightarrow> parseM3U h mx get q = parseM3U h mx get' q)
   \<and> ((\<forall>k<length (urlList q). get k (urlList q ! k) = None)
     \<longrightarrow> parseM3U h mx get q = \<lparr>channels = [], genres = [''Other Channels'']\<rparr>)
   \<and> (q \<noteq> [] \<and> m3uUrl c = Some q \<and> lastUpdate c = Some t \<and> t \<noteq> 0
        \<and> \<not> greaterThan (Finite (now - t)) (parseUpdateInterval iv)
     \<longrightarrow> manifestUpdateCache h get now finished (QString q)
           (case iv of None \<Rightarrow> QAbsent | Some s \<Rightarrow> QString s) c
         = (Continues, c))
   \<and> manifestUpdateCache h get now finished QOther ui c = (InternalError, c)
   \<and> (q \<noteq> [] \<longrightarrow> manifestUpdateCache h get now finished (QString q) QOther c = (InternalError, c))"
proof -
  have a: "manifestUpdateCache h get now finished (QString q)
           (case iv of None \<Rightarrow> QAbsent | Some s \<Rightarrow> QString s) c
         = (Continues,
            c\<lparr>channels := channels (parseM3U h (maxChannels c) get q),
              genres := genres (parseM3U h (maxChannels c) get q),
              m3uUrl := Some q, lastUpdate := Some finished\<rparr>)"
    if "q \<noteq> []" "refreshDue c q (parseUpdateInterval iv) now"
    using that by (simp add: manifestUpdateCache_strings refreshCache_def Let_def)
  have d: "manifestUpdateCache h get now finished (QString q)
           (case iv of None \<Rightarrow> QAbsent | Some s \<Rightarrow> QString s) c
         = (Continues, c)"
    if "q \<noteq> []" "m3uUrl c = Some q" "lastUpdate c = Some t" "t \<noteq> 0"
      "\<not> greaterThan (Finite (now - t)) (parseUpdateInterval iv)"
    using that by (simp add: manifestUpdateCache_strings refreshCache_def refreshDue_def)
  have e: "manifestUpdateCache h get now finished QOther ui c = (InternalError, c)"
    by (simp add: manifestUpdateCache_def)
  have f: "manifestUpdateCache h get now finished (QString q) QOther c = (InternalError, c)"
    if "q \<noteq> []"
    using that by (simp add: manifestUpdateCache_def)
  from a d e f parseM3U_failed_as_empty [of q get' get h mx] parseM3U_all_fail [of q get h mx]
  show ?thesis by blast
qed

text \<open>
  C1, as stated, fails. A first request fills the cache with one channel. Two hours later
  the source cannot be fetched: the refresh empties the cached channels and resets the
  genres. Ten seconds after that the source is back, but the read does not retry, and
  the catalog stays empty.
\<close>

theorem refresh_failure_counterexample:
  \<open>map channel_name (channels (snd (manifestUpdateCache utcHost (\<lambda>i u. if u = ''http://a'' then Some ''#EXTINF:-1 group-title="News",BBC One\<newline>http://x/stream1'' else None) 1000 2000 (QString ''http://a'') QAbsent initialCache))) = [''BBC One'']
   \<and> genres (snd (manifestUpdateCache utcHost (\<lambda>i u. if u = ''http://a'' then Some ''#EXTINF:-1 group-title="News",BBC One\<newline>http://x/stream1'' else None) 1000 2000 (QString ''http://a'') QAbsent initialCache)) = [''Other Channels'', ''News'']
   \<and> channels (snd (manifestUpdateCache utcHost (\<lambda>i u. None) 7300000 7330000 (QString ''http://a'') QAbsent (snd (manifestUpdateCache utcHost (\<lambda>i u. if u = ''http://a'' then Some ''#EXTINF:-1 group-title="News",BBC One\<newline>http://x/stream1'' else None) 1000 2000 (QString ''http://a'') QAbsent initialCache)))) = []
   \<and> genres (snd (manifestUpdateCache utcHost (\<lambda>i u. None) 7300000 7330000 (QString ''http://a'') QAbsent (snd (manifestUpdateCache utcHost (\<lambda>i u. if u = ''http://a'' then Some ''#EXTINF:-1 group-title="News",BBC One\<newline>http://x/stream1'' else None) 1000 2000 (QString ''http://a'') QAbsent initialCache)))) = [''Other Channels'']
   \<and> lastUpdate (snd (manifestUpdateCache utcHost (\<lambda>i u. None) 7300000 7330000 (QString ''http://a'') QAbsent (snd (manifestUpdateCache utcHost (\<lambda>i u. if u = ''http://a'' then Some ''#EXTINF:-1 group-title="News",BBC One\<newline>http://x/stream1'' else None) 1000 2000 (QString ''http://a'') QAbsent initialCache)))) = Some 7330000
   \<and> channels (snd (manifestUpdateCache utcHost (\<lambda>i u. if u = ''http://a'' then Some ''#EXTINF:-1 group-title="News",BBC One\<newline>http://x/stream1'' else None) 7340000 7350000 (QString ''http://a'') QAbsent (snd (manifestUpdateCache utcHost (\<lambda>i u. None) 7300000 7330000 (QString ''http://a'') QAbsent (snd (manifestUpdateCache utcHost (\<lambda>i u. if u = ''http://a'' then Some ''#EXTINF:-1 group-title="News",BBC One\<newline>http://x/stream1'' else None) 1000 2000 (QString ''http://a'') QAbsent initialCache)))))) = []\<close>
  by code_simp

theorem refresh_failure_replaces_snapshot_witness:
  \<open>refreshDue (snd (manifestUpdateCache utcHost (\<lambda>i u. if u = ''http://a'' then Some ''#EXTINF:-1 group-title="News",BBC One\<newline>http://x/stream1'' else None) 1000 2000 (QString ''http://a'') QAbsent initialCache)) ''http://a'' (parseUpdateInterval None) 7300000
   \<and> (manifestUpdateCache utcHost (\<lambda>i u. None) 7300000 7330000 (QString ''http://a'') QAbsent (snd (manifestUpdateCache utcHost (\<lambda>i u. if u = ''http://a'' then Some ''#EXTINF:-1 group-title="News",BBC One\<newline>http://x/stream1'' else None) 1000 2000 (QString ''http://a'') QAbsent initialCache))) = (Continues, (snd (manifestUpdateCache utcHost (\<lambda>i u. if u = ''http://a'' then Some ''#EXTINF:-1 group-title="News",BBC One\<newline>http://x/stream1'' else None) 1000 2000 (QString ''http://a'') QAbsent initialCache))\<lparr>channels := [], genres := [''Other Channels''], m3uUrl := Some ''http://a'',
         lastUpdate := Some 7330000\<rparr>)
   \<and> m3uUrl (snd (manifestUpdateCache utcHost (\<lambda>i u. None) 7300000 7330000 (QString ''http://a'') QAbsent (snd (manifestUpdateCache utcHost (\<lambda>i u. if u = ''http://a'' then Some ''#EXTINF:-1 group-title="News",BBC One\<newline>http://x/stream1'' else None) 1000 2000 (QString ''http://a'') QAbsent initialCache)))) = Some ''http://a''
   \<and> lastUpdate (snd (manifestUpdateCache utcHost (\<lambda>i u. None) 7300000 7330000 (QString ''http://a'') QAbsent (snd (manifestUpdateCache utcHost (\<lambda>i u. if u = ''http://a'' then Some ''#EXTINF:-1 group-title="News",BBC One\<newline>http://x/stream1'' else None) 1000 2000 (QString ''http://a'') QAbsent initialCache)))) = Some 7330000
   \<and> \<not> greaterThan (Finite (7340000 - 7330000)) (parseUpdateInterval None)
   \<and> (manifestUpdateCache utcHost (\<lambda>i u. if u = ''http://a'' then Some ''#EXTINF:-1 group-title="News",BBC One\<newline>http://x/stream1'' else None) 7340000 7350000 (QString ''http://a'') QAbsent (snd (manifestUpdateCache utcHost (\<lambda>i u. None) 7300000 7330000 (QString ''http://a'') QAbsent (snd (manifestUpdateCache utcHost (\<lambda>i u. if u = ''http://a'' then Some ''#EXTINF:-1 group-title="News",BBC One\<newline>http://x/stream1'' else None) 1000 2000 (QString ''http://a'') QAbsent initialCache))))) = (Continues, (snd (manifestUpdateCache utcHost (\<lambda>i u. None) 7300000 7330000 (QString ''http://a'') QAbsent (snd (manifestUpdateCache utcHost (\<lambda>i u. if u = ''http://a'' then Some ''#EXTINF:-1 group-title="News",BBC One\<newline>http://x/stream1'' else None) 1000 2000 (QString ''http://a'') QAbsent initialCache)))))
   \<and> urlList ''http://a,http://b'' = [''http://a'', ''http://b'']
   \<and> parseM3U utcHost 10000 (\<lambda>i u. if u = ''http://b'' then Some ''#EXTINF:-1 group-title="News",BBC One\<newline>http://x/stream1'' else None) ''http://a,http://b'' = parseM3U utcHost 10000 (\<lambda>i u. if u = ''http://b'' then Some ''#EXTINF:-1 group-title="News",BBC One\<newline>http://x/stream1'' else Some []) ''http://a,http://b''
   \<and> map channel_id (channels (parseM3U utcHost 10000 (\<lambda>i u. if u = ''http://b'' then Some ''#EXTINF:-1 group-title="News",BBC One\<newline>http://x/stream1'' else None) ''http://a,http://b'')) = [''tv|bbc_one_1'']
   \<and> manifestUpdateCache utcHost (\<lambda>i u. if u = ''http://a'' then Some ''#EXTINF:-1 group-title="News",BBC One\<newline>http://x/stream1'' else None) 7340000 7350000 QOther QAbsent (snd (manifestUpdateCache utcHost (\<lambda>i u. None) 7300000 7330000 (QString ''http://a'') QAbsent (snd (manifestUpdateCache utcHost (\<lambda>i u. if u = ''http://a'' then Some ''#EXTINF:-1 group-title="News",BBC One\<newline>http://x/stream1'' else None) 1000 2000 (QString ''http://a'') QAbsent initialCache)))) = (InternalError, (snd (manifestUpdateCache utcHost (\<lambda>i u. None) 7300000 7330000 (QString ''http://a'') QAbsent (snd (manifestUpdateCache utcHost (\<lambda>i u. if u = ''http://a'' then Some ''#EXTINF:-1 group-title="News",BBC One\<newline>http://x/stream1'' else None) 1000 2000 (QString ''http://a'') QAbsent initialCache)))))
   \<and> manifestUpdateCache utcHost (\<lambda>i u. if u = ''http://a'' then Some ''#EXTINF:-1 group-title="News",BBC One\<newline>http://x/stream1'' else None) 7340000 7350000 (QString ''http://a'') QOther (snd (manifestUpdateCache utcHost (\<lambda>i u. None) 7300000 7330000 (QString ''http://a'') QAbsent (snd (manifestUpdateCache utcHost (\<lambda>i u. if u = ''http://a'' then Some ''#EXTINF:-1 group-title="News",BBC One\<newline>http://x/stream1'' else None) 1000 2000 (QString ''http://a'') QAbsent initialCache)))) = (InternalError, (snd (manifestUpdateCache utcHost (\<lambda>i u. None) 7300000 7330000 (QString ''http://a'') QAbsent (snd (manifestUpdateCache utcHost (\<lambda>i u. if u = ''http://a'' then Some ''#EXTINF:-1 group-title="News",BBC One\<newline>http://x/stream1'' else None) 1000 2000 (QString ''http://a'') QAbsent initialCache)))))\<close>
proof -
  define c1 where \<open>c1 = (snd (manifestUpdateCache utcHost (\<lambda>i u. if u = ''http://a'' then Some ''#EXTINF:-1 group-title="News",BBC One\<newline>http://x/stream1'' else None) 1000 2000 (QString ''http://a'') QAbsent initialCache))\<close>
  define c2 where \<open>c2 = snd (manifestUpdateCache utcHost (\<lambda>i u. None) 7300000 7330000 (QString ''http://a'') QAbsent c1)\<close>
  have ne: \<open>''http://a'' \<noteq> []\<close> by simp
  have a: \<open>refreshDue c1 ''http://a'' (parseUpdateInterval None) 7300000\<close>
    unfolding c1_def by code_simp
  have n: \<open>\<forall>k<length (urlList ''http://a''). (\<lambda>i u. None) k (urlList ''http://a'' ! k) = None\<close>
    by simp
  have m2: \<open>manifestUpdateCache utcHost (\<lambda>i u. None) 7300000 7330000 (QString ''http://a'') QAbsent c1
      = (Continues, c1\<lparr>channels := [], genres := [''Other Channels''], m3uUrl := Some ''http://a'',
         lastUpdate := Some 7330000\<rparr>)\<close>
    using ne a n
      refresh_failure_replaces_snapshot [where q = \<open>''http://a''\<close> and c = c1 and iv = None
        and now = 7300000 and h = utcHost and get = \<open>(\<lambda>i u. None)\<close> and finished = 7330000]
    by simp
  then have b: \<open>m3uUrl c2 = Some ''http://a''\<close> \<open>lastUpdate c2 = Some 7330000\<close>
    by (simp_all add: c2_def)
  have c: \<open>\<not> greaterThan (Finite (7340000 - 7330000)) (parseUpdateInterval None)\<close>
    by (simp add: parseUpdateInterval_def)
  have m3: \<open>manifestUpdateCache utcHost (\<lambda>i u. if u = ''http://a'' then Some ''#EXTINF:-1 group-title="News",BBC One\<newline>http://x/stream1'' else None) 7340000 7350000 (QString ''http://a'') QAbsent c2 = (Continues, c2)\<close>
    using ne b c
      refresh_failure_replaces_snapshot [where q = \<open>''http://a''\<close> and c = c2 and iv = None
        and now = 7340000 and h = utcHost and get = \<open>(\<lambda>i u. if u = ''http://a'' then Some ''#EXTINF:-1 group-title="News",BBC One\<newline>http://x/stream1'' else None)\<close> and finished = 7350000
        and t = 7330000]
    by simp
  have u: \<open>urlList ''http://a,http://b'' = [''http://a'', ''http://b'']\<close>
    by code_simp
  have g: \<open>\<forall>k<length (urlList ''http://a,http://b''). (\<lambda>i u. if u = ''http://b'' then Some ''#EXTINF:-1 group-title="News",BBC One\<newline>http://x/stream1'' else Some []) k (urlList ''http://a,http://b'' ! k)
      = (case (\<lambda>i u. if u = ''http://b'' then Some ''#EXTINF:-1 group-title="News",BBC One\<newline>http://x/stream1'' else None) k (urlList ''http://a,http://b'' ! k) of None \<Rightarrow> Some [] | Some d \<Rightarrow> Some d)\<close>
    by simp
  have s: \<open>parseM3U utcHost 10000 (\<lambda>i u. if u = ''http://b'' then Some ''#EXTINF:-1 group-title="News",BBC One\<newline>http://x/stream1'' else None) ''http://a,http://b'' = parseM3U utcHost 10000 (\<lambda>i u. if u = ''http://b'' then Some ''#EXTINF:-1 group-title="News",BBC One\<newline>http://x/stream1'' else Some []) ''http://a,http://b''\<close>
    using g refresh_failure_replaces_snapshot [where q = \<open>''http://a,http://b''\<close> and get = \<open>(\<lambda>i u. if u = ''http://b'' then Some ''#EXTINF:-1 group-title="News",BBC One\<newline>http://x/stream1'' else None)\<close>
        and get' = \<open>(\<lambda>i u. if u = ''http://b'' then Some ''#EXTINF:-1 group-title="News",BBC One\<newline>http://x/stream1'' else Some [])\<close> and h = utcHost and mx = 10000]
    by blast
  have i: \<open>map channel_id (channels (parseM3U utcHost 10000 (\<lambda>i u. if u = ''http://b'' then Some ''#EXTINF:-1 group-title="News",BBC One\<newline>http://x/stream1'' else None) ''http://a,http://b'')) = [''tv|bbc_one_1'']\<close>
    by code_simp
  have e: \<open>manifestUpdateCache utcHost (\<lambda>i u. if u = ''http://a'' then Some ''#EXTINF:-1 group-title="News",BBC One\<newline>http://x/stream1'' else None) 7340000 7350000 QOther QAbsent c2 = (InternalError, c2)\<close>
    \<open>manifestUpdateCache utcHost (\<lambda>i u. if u = ''http://a'' then Some ''#EXTINF:-1 group-title="News",BBC One\<newline>http://x/stream1'' else None) 7340000 7350000 (QString ''http://a'') QOther c2 = (InternalError, c2)\<close>
    using ne refresh_failure_replaces_snapshot [where q = \<open>''http://a''\<close> and c = c2
        and h = utcHost and get = \<open>(\<lambda>i u. if u = ''http://a'' then Some ''#EXTINF:-1 group-title="News",BBC One\<newline>http://x/stream1'' else None)\<close> and now = 7340000 and finished = 7350000 and ui = QAbsent]
    by simp_all
  show ?thesis
    using a m2 b c m3 u s i e unfolding c2_def c1_def by simp
qed

subsection \<open>The programme lookup\<close>

lemma scanProgrammes_no_attrs:
  "\<forall>p\<in>set ps. attrs p = None \<Longrightarrow> scanProgrammes h now normalizedId ps = None"
  by (induction ps) simp_all

lemma attrs_mergeAttrs: "attrs (mergeAttrs p) = None"
  by (simp add: mergeAttrs_def split: option.splits)

lemma programmesOf_withMergedAttrs:
  "programmesOf (Some (withMergedAttrs e)) = map mergeAttrs (programmesOf (Some e))"
proof (cases "tv e")
  case None
  then show ?thesis by (simp add: programmesOf_def withMergedAttrs_def)
next
  case t: (Some t)
  show ?thesis
  proof (cases "programme t")
    case None
    with t show ?thesis by (simp add: programmesOf_def withMergedAttrs_def)
  next
    case (Some ps)
    with t show ?thesis by (cases ps) (simp_all add: programmesOf_def withMergedAttrs_def)
  qed
qed

lemma withMergedAttrs_no_attrs:
  "list_all (\<lambda>p. attrs p = None) (programmesOf (Some (withMergedAttrs e)))"
  by (simp add: programmesOf_withMergedAttrs list_all_iff attrs_mergeAttrs)

lemma getCurrentProgram_no_attrs:
  assumes "list_all (\<lambda>p. attrs p = None) (programmesOf guide)"
  shows "getCurrentProgram h now channelId guide = None"
proof (cases guide)
  case None
  then show ?thesis by (simp add: getCurrentProgram_def)
next
  case e: (Some e)
  show ?thesis
  proof (cases "tv e")
    case None
    with e show ?thesis by (simp add: getCurrentProgram_def)
  next
    case t: (Some t)
    show ?thesis
    proof (cases "programme t")
      case None
      with e t show ?thesis by (simp add: getCurrentProgram_def)
    next
      case (Some ps)
      with e t assms show ?thesis
        by (cases ps)
          (simp_all add: getCurrentProgram_def programmesOf_def list_all_iff
            scanProgrammes_no_attrs)
    qed
  qed
qed

text \<open>
  The promise of \<open>parseEPG\<close> is decided with \<open>null\<close> or with a tree whose programmes have
  no \<open>$\<close>.
\<close>

lemma resolved_resolve:
  "resolved (resolve v st) = (if resolved st = None then Some v else resolved st)"
  by (simp add: resolve_def)

lemma resolve_no_attrs:
  assumes "list_all (\<lambda>p. attrs p = None)
             (programmesOf (case resolved st of None \<Rightarrow> None | Some r \<Rightarrow> r))"
    and "list_all (\<lambda>p. attrs p = None) (programmesOf v)"
  shows "list_all (\<lambda>p. attrs p = None)
           (programmesOf (case resolved (resolve v st) of None \<Rightarrow> None | Some r \<Rightarrow> r))"
proof (cases "resolved st")
  case None
  then show ?thesis using assms(2) by (simp add: resolved_resolve)
next
  case (Some r)
  then show ?thesis using assms(1) by (simp add: resolved_resolve)
qed

lemma programmesOf_None: "programmesOf None = []"
  by (simp add: programmesOf_def)

lemma deliver_no_attrs:
  assumes "list_all (\<lambda>p. attrs p = None)
             (programmesOf (case resolved st of None \<Rightarrow> None | Some r \<Rightarrow> r))"
  shows "list_all (\<lambda>p. attrs p = None)
           (programmesOf (case resolved (deliver net st ev) of None \<Rightarrow> None | Some r \<Rightarrow> r))"
proof (cases "destroyed st")
  case True
  then have "deliver net st ev = st" by (simp add: deliver_def)
  then show ?thesis using assms by simp
next
  case False
  have none: "list_all (\<lambda>p. attrs p = None)
      (programmesOf (case resolved (resolve None st) of None \<Rightarrow> None | Some r \<Rightarrow> r))"
    using assms by (rule resolve_no_attrs) (simp add: programmesOf_None)
  show ?thesis
  proof (cases ev)
    case (Data chunk)
    have "resolved (onData chunk st) = resolved st" by (simp add: onData_def Let_def)
    moreover have "deliver net st ev = onData chunk st" using Data False by (simp add: deliver_def)
    ultimately show ?thesis using assms by simp
  next
    case End
    have d: "deliver net st ev = onEnd net st" using End False by (simp add: deliver_def)
    show ?thesis
    proof (cases "chunks st = []")
      case True
      then have "onEnd net st = resolve None st" by (simp add: onEnd_def)
      then show ?thesis using none d by simp
    next
      case ne: False
      show ?thesis
      proof (cases "parseStringPromise net (concat (chunks st))")
        case None
        then have "onEnd net st = resolve None st" using ne by (simp add: onEnd_def)
        then show ?thesis using none d by simp
      next
        case (Some tree)
        then have "onEnd net st = resolve (Some (withMergedAttrs tree)) (st\<lparr>chunks := []\<rparr>)"
          using ne by (simp add: onEnd_def)
        moreover have "list_all (\<lambda>p. attrs p = None)
            (programmesOf (case resolved (resolve (Some (withMergedAttrs tree)) (st\<lparr>chunks := []\<rparr>))
               of None \<Rightarrow> None | Some r \<Rightarrow> r))"
        proof (rule resolve_no_attrs)
          show "list_all (\<lambda>p. attrs p = None)
              (programmesOf (case resolved (st\<lparr>chunks := []\<rparr>) of None \<Rightarrow> None | Some r \<Rightarrow> r))"
            using assms by simp
          show "list_all (\<lambda>p. attrs p = None) (programmesOf (Some (withMergedAttrs tree)))"
            by (rule withMergedAttrs_no_attrs)
        qed
        ultimately show ?thesis using d by simp
      qed
    qed
  next
    case Error
    then have "deliver net st ev = resolve None st" using False by (simp add: deliver_def onError_def)
    then show ?thesis using none by simp
  qed
qed

lemma foldl_deliver_no_attrs:
  "list_all (\<lambda>p. attrs p = None)
     (programmesOf (case resolved st of None \<Rightarrow> None | Some r \<Rightarrow> r))
   \<Longrightarrow> list_all (\<lambda>p. attrs p = None)
         (programmesOf (case resolved (foldl (deliver net) st evs) of None \<Rightarrow> None | Some r \<Rightarrow> r))"
proof (induction evs arbitrary: st)
  case Nil
  then show ?case by simp
next
  case (Cons ev evs)
  have "list_all (\<lambda>p. attrs p = None)
     (programmesOf (case resolved (deliver net st ev) of None \<Rightarrow> None | Some r \<Rightarrow> r))"
    using Cons.prems by (rule deliver_no_attrs)
  then have "list_all (\<lambda>p. attrs p = None)
     (programmesOf (case resolved (foldl (deliver net) (deliver net st ev) evs)
        of None \<Rightarrow> None | Some r \<Rightarrow> r))"
    by (rule Cons.IH)
  then show ?case by simp
qed

lemma streamPromise_no_attrs:
  "list_all (\<lambda>p. attrs p = None) (programmesOf (streamPromise net evs))"
proof -
  let ?st = "foldl (deliver net) initialAccumulator evs"
  have "list_all (\<lambda>p. attrs p = None)
     (programmesOf (case resolved ?st of None \<Rightarrow> None | Some r \<Rightarrow> r))"
    by (rule foldl_deliver_no_attrs) (simp add: initialAccumulator_def programmesOf_None)
  then have "list_all (\<lambda>p. attrs p = None)
     (programmesOf (case resolved (?st\<lparr>destroyed := True\<rparr>) of None \<Rightarrow> None | Some r \<Rightarrow> r))"
    by simp
  then have "list_all (\<lambda>p. attrs p = None)
     (programmesOf (case resolved (resolve None (?st\<lparr>destroyed := True\<rparr>))
        of None \<Rightarrow> None | Some r \<Rightarrow> r))"
    by (rule resolve_no_attrs) (simp add: programmesOf_None)
  then show ?thesis by (simp only: streamPromise_def onTimeout_def)
qed

lemma parseEPG_no_attrs:
  "list_all (\<lambda>p. attrs p = None) (programmesOf (parseEPG net epgUrl))"
proof -
  have "parseEPG net epgUrl = None \<or> (\<exists>evs. parseEPG net epgUrl = streamPromise net evs)"
    unfolding parseEPG_def Let_def
    by (cases epgUrl; simp split: option.splits) blast
  then show ?thesis using streamPromise_no_attrs by (auto simp: programmesOf_None)
qed

text \<open>
  C4: the lookup is written to return the first programme in document order, among those
  whose channel is the key, whose window contains the instant. It reads the channel and the
  window of a programme from the attribute object \<open>$\<close> and skips a programme without one.
  \<open>parseEPG\<close> loads the guide with \<open>mergeAttrs: true\<close>, so no programme of a loaded guide has
  a \<open>$\<close>: for every guide that \<open>parseEPG\<close> returns, every key and every instant, the lookup
  returns none. The guide of the example, \<open>bbc1\<close> with the news from 12:00 to 13:00 on
  2024-01-01, is loaded with its one programme, and the lookup of \<open>bbc1\<close> at 12:30 in it
  returns none; on the tree that the parser builds by default, as
  \<open>SimpleEPGManager.loadEPG\<close> calls it, the same lookup returns the news.
\<close>

theorem lookup_misses_every_loaded_programme:
  \<open>list_all (\<lambda>p. attrs p = None) (programmesOf (parseEPG net epgUrl))
   \<and> getCurrentProgram h now channelId (parseEPG net epgUrl) = None
   \<and> parseEPG \<lparr>head = (\<lambda>u. Some \<lparr>content_length = None\<rparr>), getStream = (\<lambda>u. Some \<lparr>content_encoding = None, events = [Data ''<tv><programme channel="bbc1" start="20240101120000 +0000" stop="20240101130000 +0000"><title>News</title></programme></tv>'', End]\<rparr>), gunzip = (\<lambda>evs. evs), parseStringPromise = (\<lambda>s. if s = ''<tv><programme channel="bbc1" start="20240101120000 +0000" stop="20240101130000 +0000"><title>News</title></programme></tv>'' then Some \<lparr>tv = Some \<lparr>programme = Some (Single \<lparr>attrs = Some \<lparr>attr_channel = Some ''bbc1'', attr_start = Some ''20240101120000 +0000'', attr_stop = Some ''20240101130000 +0000''\<rparr>, merged_channel = None, merged_start = None, merged_stop = None, title = One (Text ''News''), desc = Missing\<rparr>)\<rparr>\<rparr> else None)\<rparr> (Some ''http://e/guide.xml'') = Some \<lparr>tv = Some \<lparr>programme = Some (Single \<lparr>attrs = None, merged_channel = Some ''bbc1'', merged_start = Some ''20240101120000 +0000'', merged_stop = Some ''20240101130000 +0000'', title = One (Text ''News''), desc = Missing\<rparr>)\<rparr>\<rparr>
   \<and> getCurrentProgram utcHost 1704112200000 ''bbc1'' (parseEPG \<lparr>head = (\<lambda>u. Some \<lparr>content_length = None\<rparr>), getStream = (\<lambda>u. Some \<lparr>content_encoding = None, events = [Data ''<tv><programme channel="bbc1" start="20240101120000 +0000" stop="20240101130000 +0000"><title>News</title></programme></tv>'', End]\<rparr>), gunzip = (\<lambda>evs. evs), parseStringPromise = (\<lambda>s. if s = ''<tv><programme channel="bbc1" start="20240101120000 +0000" stop="20240101130000 +0000"><title>News</title></programme></tv>'' then Some \<lparr>tv = Some \<lparr>programme = Some (Single \<lparr>attrs = Some \<lparr>attr_channel = Some ''bbc1'', attr_start = Some ''20240101120000 +0000'', attr_stop = Some ''20240101130000 +0000''\<rparr>, merged_channel = None, merged_start = None, merged_stop = None, title = One (Text ''News''), desc = Missing\<rparr>)\<rparr>\<rparr> else None)\<rparr> (Some ''http://e/guide.xml'')) = None
   \<and> getCurrentProgram utcHost 1704112200000 ''bbc1'' (Some \<lparr>tv = Some \<lparr>programme = Some (Single \<lparr>attrs = Some \<lparr>attr_channel = Some ''bbc1'', attr_start = Some ''20240101120000 +0000'', attr_stop = Some ''20240101130000 +0000''\<rparr>, merged_channel = None, merged_start = None, merged_stop = None, title = One (Text ''News''), desc = Missing\<rparr>)\<rparr>\<rparr>)
       = Some \<lparr>np_title = ''News'', np_description = [], np_start = ''12:00:00 PM'', np_stop = ''1:00:00 PM''\<rparr>\<close>
proof -
  have n: \<open>list_all (\<lambda>p. attrs p = None) (programmesOf (parseEPG net epgUrl))\<close>
    by (rule parseEPG_no_attrs)
  then have a: \<open>getCurrentProgram h now channelId (parseEPG net epgUrl) = None\<close>
    by (rule getCurrentProgram_no_attrs)
  define net where \<open>net = \<lparr>head = (\<lambda>u. Some \<lparr>content_length = None\<rparr>), getStream = (\<lambda>u. Some \<lparr>content_encoding = None, events = [Data ''<tv><programme channel="bbc1" start="20240101120000 +0000" stop="20240101130000 +0000"><title>News</title></programme></tv>'', End]\<rparr>), gunzip = (\<lambda>evs. evs), parseStringPromise = (\<lambda>s. if s = ''<tv><programme channel="bbc1" start="20240101120000 +0000" stop="20240101130000 +0000"><title>News</title></programme></tv>'' then Some \<lparr>tv = Some \<lparr>programme = Some (Single \<lparr>attrs = Some \<lparr>attr_channel = Some ''bbc1'', attr_start = Some ''20240101120000 +0000'', attr_stop = Some ''20240101130000 +0000''\<rparr>, merged_channel = None, merged_start = None, merged_stop = None, title = One (Text ''News''), desc = Missing\<rparr>)\<rparr>\<rparr> else None)\<rparr>\<close>
  have cu: \<open>cleanUrl ''http://e/guide.xml'' = ''http://e/guide.xml''\<close>
    by code_simp
  have pi: \<open>parseInt ''0'' = Finite 0\<close>
    by code_simp
  have gz: \<open>endsWith ''http://e/guide.xml'' ''.gz'' = False\<close>
    by code_simp
  have sp: \<open>parseEPG net (Some ''http://e/guide.xml'')
      = streamPromise net [Data ''<tv><programme channel="bbc1" start="20240101120000 +0000" stop="20240101130000 +0000"><title>News</title></programme></tv>'', End]\<close>
    by (simp add: parseEPG_def cu pi gz net_def)
  have len: \<open>length ''<tv><programme channel="bbc1" start="20240101120000 +0000" stop="20240101130000 +0000"><title>News</title></programme></tv>'' \<le> maxSize\<close>
    by (simp add: maxSize_def)
  have od: \<open>onData ''<tv><programme channel="bbc1" start="20240101120000 +0000" stop="20240101130000 +0000"><title>News</title></programme></tv>'' initialAccumulator
      = \<lparr>chunks = [''<tv><programme channel="bbc1" start="20240101120000 +0000" stop="20240101130000 +0000"><title>News</title></programme></tv>''], totalSize = length ''<tv><programme channel="bbc1" start="20240101120000 +0000" stop="20240101130000 +0000"><title>News</title></programme></tv>'', destroyed = False, resolved = None\<rparr>\<close>
    using len by (simp add: onData_def initialAccumulator_def Let_def del: list.size)
  have oe: \<open>onEnd net \<lparr>chunks = [''<tv><programme channel="bbc1" start="20240101120000 +0000" stop="20240101130000 +0000"><title>News</title></programme></tv>''], totalSize = length ''<tv><programme channel="bbc1" start="20240101120000 +0000" stop="20240101130000 +0000"><title>News</title></programme></tv>'', destroyed = False, resolved = None\<rparr>
      = \<lparr>chunks = [], totalSize = length ''<tv><programme channel="bbc1" start="20240101120000 +0000" stop="20240101130000 +0000"><title>News</title></programme></tv>'', destroyed = False, resolved = Some (Some \<lparr>tv = Some \<lparr>programme = Some (Single \<lparr>attrs = None, merged_channel = Some ''bbc1'', merged_start = Some ''20240101120000 +0000'', merged_stop = Some ''20240101130000 +0000'', title = One (Text ''News''), desc = Missing\<rparr>)\<rparr>\<rparr>)\<rparr>\<close>
    by (simp add: onEnd_def resolve_def net_def withMergedAttrs_def mergeAttrs_def del: list.size)
  have d1: \<open>deliver net initialAccumulator (Data ''<tv><programme channel="bbc1" start="20240101120000 +0000" stop="20240101130000 +0000"><title>News</title></programme></tv>'') = onData ''<tv><programme channel="bbc1" start="20240101120000 +0000" stop="20240101130000 +0000"><title>News</title></programme></tv>'' initialAccumulator\<close>
    by (simp add: deliver_def initialAccumulator_def del: list.size)
  have d2: \<open>deliver net \<lparr>chunks = [''<tv><programme channel="bbc1" start="20240101120000 +0000" stop="20240101130000 +0000"><title>News</title></programme></tv>''], totalSize = length ''<tv><programme channel="bbc1" start="20240101120000 +0000" stop="20240101130000 +0000"><title>News</title></programme></tv>'', destroyed = False, resolved = None\<rparr> End
      = onEnd net \<lparr>chunks = [''<tv><programme channel="bbc1" start="20240101120000 +0000" stop="20240101130000 +0000"><title>News</title></programme></tv>''], totalSize = length ''<tv><programme channel="bbc1" start="20240101120000 +0000" stop="20240101130000 +0000"><title>News</title></programme></tv>'', destroyed = False, resolved = None\<rparr>\<close>
    by (simp add: deliver_def del: list.size)
  have \<open>foldl (deliver net) initialAccumulator [Data ''<tv><programme channel="bbc1" start="20240101120000 +0000" stop="20240101130000 +0000"><title>News</title></programme></tv>'', End]
      = \<lparr>chunks = [], totalSize = length ''<tv><programme channel="bbc1" start="20240101120000 +0000" stop="20240101130000 +0000"><title>News</title></programme></tv>'', destroyed = False, resolved = Some (Some \<lparr>tv = Some \<lparr>programme = Some (Single \<lparr>attrs = None, merged_channel = Some ''bbc1'', merged_start = Some ''20240101120000 +0000'', merged_stop = Some ''20240101130000 +0000'', title = One (Text ''News''), desc = Missing\<rparr>)\<rparr>\<rparr>)\<rparr>\<close>
    by (simp only: foldl.simps d1 od d2 oe)
  then have \<open>streamPromise net [Data ''<tv><programme channel="bbc1" start="20240101120000 +0000" stop="20240101130000 +0000"><title>News</title></programme></tv>'', End] = Some \<lparr>tv = Some \<lparr>programme = Some (Single \<lparr>attrs = None, merged_channel = Some ''bbc1'', merged_start = Some ''20240101120000 +0000'', merged_stop = Some ''20240101130000 +0000'', title = One (Text ''News''), desc = Missing\<rparr>)\<rparr>\<rparr>\<close>
    by (simp add: streamPromise_def onTimeout_def resolve_def del: list.size)
  with sp have b: \<open>parseEPG net (Some ''http://e/guide.xml'') = Some \<lparr>tv = Some \<lparr>programme = Some (Single \<lparr>attrs = None, merged_channel = Some ''bbc1'', merged_start = Some ''20240101120000 +0000'', merged_stop = Some ''20240101130000 +0000'', title = One (Text ''News''), desc = Missing\<rparr>)\<rparr>\<rparr>\<close>
    by simp
  have \<open>getCurrentProgram utcHost 1704112200000 ''bbc1'' (Some \<lparr>tv = Some \<lparr>programme = Some (Single \<lparr>attrs = None, merged_channel = Some ''bbc1'', merged_start = Some ''20240101120000 +0000'', merged_stop = Some ''20240101130000 +0000'', title = One (Text ''News''), desc = Missing\<rparr>)\<rparr>\<rparr>) = None\<close>
    by code_simp
  with b have c: \<open>getCurrentProgram utcHost 1704112200000 ''bbc1'' (parseEPG net (Some ''http://e/guide.xml'')) = None\<close>
    by simp
  have d: \<open>getCurrentProgram utcHost 1704112200000 ''bbc1'' (Some \<lparr>tv = Some \<lparr>programme = Some (Single \<lparr>attrs = Some \<lparr>attr_channel = Some ''bbc1'', attr_start = Some ''20240101120000 +0000'', attr_stop = Some ''20240101130000 +0000''\<rparr>, merged_channel = None, merged_start = None, merged_stop = None, title = One (Text ''News''), desc = Missing\<rparr>)\<rparr>\<rparr>)
       = Some \<lparr>np_title = ''News'', np_description = [], np_start = ''12:00:00 PM'', np_stop = ''1:00:00 PM''\<rparr>\<close>
    by code_simp
  from n a b c d show ?thesis unfolding net_def by (intro conjI)
qed

subsection \<open>The size ceilings of the guide\<close>

lemma parseInt_empty: "parseInt [] = NaN"
  by code_simp

lemma deliver_destroyed: "destroyed st \<Longrightarrow> foldl (deliver net) st evs = st"
  by (induction evs) (simp_all add: deliver_def)

lemma deliver_over_ceiling:
  "\<not> destroyed st \<Longrightarrow> resolved st = None \<Longrightarrow> totalSize st \<le> maxSize \<Longrightarrow> list_all isData pre
     \<Longrightarrow> maxSize < totalSize st + sum_list (map chunkSize pre)
     \<Longrightarrow> destroyed (foldl (deliver net) st pre) \<and> resolved (foldl (deliver net) st pre) = None"
proof (induction pre arbitrary: st)
  case Nil
  then show ?case by simp
next
  case (Cons ev pre)
  then obtain chunk where ev: "ev = Data chunk" by (cases ev) auto
  show ?case
  proof (cases "maxSize < totalSize st + length chunk")
    case True
    then have "destroyed (deliver net st ev)" "resolved (deliver net st ev) = None"
      using Cons.prems by (simp_all add: ev deliver_def onData_def Let_def)
    then show ?thesis by (simp add: deliver_destroyed)
  next
    case False
    then have "\<not> destroyed (deliver net st ev)" "resolved (deliver net st ev) = None"
      "totalSize (deliver net st ev) = totalSize st + length chunk"
      using Cons.prems by (simp_all add: ev deliver_def onData_def Let_def)
    moreover have "totalSize st + length chunk \<le> maxSize"
      using False by simp
    ultimately show ?thesis
      using Cons.IH [of "deliver net st ev"] Cons.prems by (simp add: ev add.assoc)
  qed
qed

lemma streamPromise_over_ceiling:
  assumes "list_all isData pre" "maxSize < sum_list (map chunkSize pre)"
  shows "streamPromise net (pre @ rest) = None"
proof -
  let ?st = "foldl (deliver net) initialAccumulator pre"
  have "destroyed ?st \<and> resolved ?st = None"
    by (rule deliver_over_ceiling) (use assms in \<open>simp_all add: initialAccumulator_def\<close>)
  then have "destroyed (foldl (deliver net) initialAccumulator (pre @ rest))"
    "resolved (foldl (deliver net) initialAccumulator (pre @ rest)) = None"
    by (simp_all add: deliver_destroyed)
  then show ?thesis
    by (simp add: streamPromise_def onTimeout_def resolve_def)
qed

text \<open>
  C6: a guide whose declared content length is above 100MB (or reads as infinite) gives
  none, without a request for the body; and a guide whose stream delivers more than 50MB
  of data before it ends gives none: the chunk that crosses the ceiling destroys the
  stream, no later event reaches the handlers, nothing is parsed, and the timer resolves
  the promise with none.
\<close>

theorem oversized_guide_is_none:
  "(u \<noteq> [] \<and> head net (cleanUrl u) = Some hr \<and> content_length hr = Some v
      \<and> (parseInt v = Finite n \<and> n > 100 * 1024 * 1024 \<or> parseInt v = Infinite True)
     \<longrightarrow> parseEPG net (Some u) = None)
   \<and> (list_all isData pre \<and> maxSize < sum_list (map chunkSize pre)
     \<longrightarrow> streamPromise net (pre @ rest) = None)
   \<and> (u \<noteq> [] \<and> head net (cleanUrl u) = Some hr \<and> getStream net (cleanUrl u) = Some response
      \<and> (if endsWith (cleanUrl u) ''.gz'' \<or> content_encoding response = Some ''gzip''
          then gunzip net (events response) else events response) = pre @ rest
      \<and> list_all isData pre \<and> maxSize < sum_list (map chunkSize pre)
     \<longrightarrow> parseEPG net (Some u) = None)"
proof -
  have a: "parseEPG net (Some u) = None"
    if "u \<noteq> []" "head net (cleanUrl u) = Some hr" "content_length hr = Some v"
      "parseInt v = Finite n \<and> n > 100 * 1024 * 1024 \<or> parseInt v = Infinite True"
  proof -
    have "v \<noteq> []" using that(4) parseInt_empty by auto
    moreover have "greaterThan (parseInt v) (Finite (100 * 1024 * 1024))"
      using that(4) by auto
    ultimately show ?thesis using that(1-3) by (simp add: parseEPG_def Let_def)
  qed
  have b: "streamPromise net (pre @ rest) = None"
    if "list_all isData pre" "maxSize < sum_list (map chunkSize pre)"
    using that by (rule streamPromise_over_ceiling)
  have c: "parseEPG net (Some u) = None"
    if "u \<noteq> []" "head net (cleanUrl u) = Some hr" "getStream net (cleanUrl u) = Some response"
      "(if endsWith (cleanUrl u) ''.gz'' \<or> content_encoding response = Some ''gzip''
          then gunzip net (events response) else events response) = pre @ rest"
      "list_all isData pre" "maxSize < sum_list (map chunkSize pre)"
    using that b by (simp add: parseEPG_def Let_def split: option.splits)
  from a b c show ?thesis by blast
qed

theorem oversized_guide_is_none_witness:
  "cleanUrl ''http://e/guide.xml'' = ''http://e/guide.xml''
   \<and> parseInt ''104857601'' = Finite 104857601 \<and> (104857601 :: int) > 100 * 1024 * 1024
   \<and> parseEPG \<lparr>head = (\<lambda>u. Some \<lparr>content_length = Some ''104857601''\<rparr>),
       getStream = (\<lambda>u. None), gunzip = (\<lambda>evs. evs), parseStringPromise = (\<lambda>s. None)\<rparr> (Some ''http://e/guide.xml'') = None
   \<and> list_all isData [Data (replicate 52428801 CHR ''x'')]
   \<and> maxSize < sum_list (map chunkSize [Data (replicate 52428801 CHR ''x'')])
   \<and> \<not> endsWith ''http://e/guide.xml'' ''.gz''
   \<and> streamPromise \<lparr>head = (\<lambda>u. Some \<lparr>content_length = None\<rparr>),
       getStream = (\<lambda>u. Some \<lparr>content_encoding = None,
                                 events = [Data (replicate 52428801 CHR ''x''), End]\<rparr>),
       gunzip = (\<lambda>evs. evs), parseStringPromise = (\<lambda>s. Some \<lparr>tv = None\<rparr>)\<rparr> ([Data (replicate 52428801 CHR ''x'')] @ [End]) = None
   \<and> parseEPG \<lparr>head = (\<lambda>u. Some \<lparr>content_length = None\<rparr>),
       getStream = (\<lambda>u. Some \<lparr>content_encoding = None,
                                 events = [Data (replicate 52428801 CHR ''x''), End]\<rparr>),
       gunzip = (\<lambda>evs. evs), parseStringPromise = (\<lambda>s. Some \<lparr>tv = None\<rparr>)\<rparr> (Some ''http://e/guide.xml'') = None"
proof -
  have cu: "cleanUrl ''http://e/guide.xml'' = ''http://e/guide.xml''"
    by code_simp
  have pi: "parseInt ''104857601'' = Finite 104857601"
    by code_simp
  have da: "list_all isData [Data (replicate 52428801 CHR ''x'')]"
    by simp
  have sz: "maxSize < sum_list (map chunkSize [Data (replicate 52428801 CHR ''x'')])"
    by (simp add: maxSize_def)
  have gz: "\<not> endsWith ''http://e/guide.xml'' ''.gz''"
    by code_simp
  have ne: "''http://e/guide.xml'' \<noteq> []"
    by simp
  have a: "parseEPG \<lparr>head = (\<lambda>u. Some \<lparr>content_length = Some ''104857601''\<rparr>),
       getStream = (\<lambda>u. None), gunzip = (\<lambda>evs. evs), parseStringPromise = (\<lambda>s. None)\<rparr> (Some ''http://e/guide.xml'') = None"
  proof -
    have "head \<lparr>head = (\<lambda>u. Some \<lparr>content_length = Some ''104857601''\<rparr>),
       getStream = (\<lambda>u. None), gunzip = (\<lambda>evs. evs), parseStringPromise = (\<lambda>s. None)\<rparr> (cleanUrl ''http://e/guide.xml'') = Some \<lparr>content_length = Some ''104857601''\<rparr>"
      by simp
    moreover have "content_length \<lparr>content_length = Some ''104857601''\<rparr> = Some ''104857601''"
      by simp
    ultimately show ?thesis
      using ne pi oversized_guide_is_none [of "''http://e/guide.xml''" "\<lparr>head = (\<lambda>u. Some \<lparr>content_length = Some ''104857601''\<rparr>),
       getStream = (\<lambda>u. None), gunzip = (\<lambda>evs. evs), parseStringPromise = (\<lambda>s. None)\<rparr>"
          "\<lparr>content_length = Some ''104857601''\<rparr>" "''104857601''" 104857601]
      by simp
  qed
  have b: "streamPromise \<lparr>head = (\<lambda>u. Some \<lparr>content_length = None\<rparr>),
       getStream = (\<lambda>u. Some \<lparr>content_encoding = None,
                                 events = [Data (replicate 52428801 CHR ''x''), End]\<rparr>),
       gunzip = (\<lambda>evs. evs), parseStringPromise = (\<lambda>s. Some \<lparr>tv = None\<rparr>)\<rparr> ([Data (replicate 52428801 CHR ''x'')] @ [End]) = None"
    using da sz oversized_guide_is_none [of _ "\<lparr>head = (\<lambda>u. Some \<lparr>content_length = None\<rparr>),
       getStream = (\<lambda>u. Some \<lparr>content_encoding = None,
                                 events = [Data (replicate 52428801 CHR ''x''), End]\<rparr>),
       gunzip = (\<lambda>evs. evs), parseStringPromise = (\<lambda>s. Some \<lparr>tv = None\<rparr>)\<rparr>" _ _ _
        "[Data (replicate 52428801 CHR ''x'')]" "[End]"]
    by blast
  have c: "parseEPG \<lparr>head = (\<lambda>u. Some \<lparr>content_length = None\<rparr>),
       getStream = (\<lambda>u. Some \<lparr>content_encoding = None,
                                 events = [Data (replicate 52428801 CHR ''x''), End]\<rparr>),
       gunzip = (\<lambda>evs. evs), parseStringPromise = (\<lambda>s. Some \<lparr>tv = None\<rparr>)\<rparr> (Some ''http://e/guide.xml'') = None"
  proof -
    have "head \<lparr>head = (\<lambda>u. Some \<lparr>content_length = None\<rparr>),
       getStream = (\<lambda>u. Some \<lparr>content_encoding = None,
                                 events = [Data (replicate 52428801 CHR ''x''), End]\<rparr>),
       gunzip = (\<lambda>evs. evs), parseStringPromise = (\<lambda>s. Some \<lparr>tv = None\<rparr>)\<rparr> (cleanUrl ''http://e/guide.xml'') = Some \<lparr>content_length = None\<rparr>"
      "getStream \<lparr>head = (\<lambda>u. Some \<lparr>content_length = None\<rparr>),
       getStream = (\<lambda>u. Some \<lparr>content_encoding = None,
                                 events = [Data (replicate 52428801 CHR ''x''), End]\<rparr>),
       gunzip = (\<lambda>evs. evs), parseStringPromise = (\<lambda>s. Some \<lparr>tv = None\<rparr>)\<rparr> (cleanUrl ''http://e/guide.xml'')
         = Some \<lparr>content_encoding = None, events = [Data (replicate 52428801 CHR ''x''), End]\<rparr>"
      by simp_all
    moreover have "(if endsWith (cleanUrl ''http://e/guide.xml'') ''.gz''
            \<or> content_encoding \<lparr>content_encoding = None,
                 events = [Data (replicate 52428801 CHR ''x''), End]\<rparr> = Some ''gzip''
          then gunzip \<lparr>head = (\<lambda>u. Some \<lparr>content_length = None\<rparr>),
       getStream = (\<lambda>u. Some \<lparr>content_encoding = None,
                                 events = [Data (replicate 52428801 CHR ''x''), End]\<rparr>),
       gunzip = (\<lambda>evs. evs), parseStringPromise = (\<lambda>s. Some \<lparr>tv = None\<rparr>)\<rparr> (events \<lparr>content_encoding = None,
                 events = [Data (replicate 52428801 CHR ''x''), End]\<rparr>)
          else events \<lparr>content_encoding = None,
                 events = [Data (replicate 52428801 CHR ''x''), End]\<rparr>)
        = [Data (replicate 52428801 CHR ''x'')] @ [End]"
      using gz by (simp add: cu)
    ultimately show ?thesis
      using ne da sz oversized_guide_is_none [of "''http://e/guide.xml''" "\<lparr>head = (\<lambda>u. Some \<lparr>content_length = None\<rparr>),
       getStream = (\<lambda>u. Some \<lparr>content_encoding = None,
                                 events = [Data (replicate 52428801 CHR ''x''), End]\<rparr>),
       gunzip = (\<lambda>evs. evs), parseStringPromise = (\<lambda>s. Some \<lparr>tv = None\<rparr>)\<rparr>" "\<lparr>content_length = None\<rparr>" _ _
          "[Data (replicate 52428801 CHR ''x'')]" "[End]"
          "\<lparr>content_encoding = None, events = [Data (replicate 52428801 CHR ''x''), End]\<rparr>"]
      by blast
  qed
  show ?thesis
    using cu pi da sz gz a b c by simp
qed

end
